theory Spec2Isabelle
  imports Complex_Main "HOL-Library.Multiset"
begin

section \<open>Data model\<close>

text \<open>
  The task routes (routes/tasks.js), their validators (middleware/validation.js) and the
  task schema (models/Task.js) are embedded as pure functions over an explicit database.
  An ObjectId is an opaque identifier. Dates are milliseconds since the epoch.
\<close>

type_synonym objectId = nat

text \<open>
  The title and the description of a task are JavaScript strings: sequences of UTF-16
  code units (numbers below 65536). Their white space and their length are what the
  validators and the schema look at. \<open>utf16\<close> writes an ASCII text as such a string.
\<close>

type_synonym jsstring = "nat list"

definition utf16 :: "string \<Rightarrow> jsstring" where
  "utf16 s = map of_char s"

text \<open>
  A non-empty request string where the code expects an id, as the libraries see it:
  \<^item> \<open>Id i c\<close>: twenty-four hexadecimal digits; \<open>isMongoId\<close> accepts it and the store
    casts it to the id \<open>i\<close>; \<open>c\<close> says that the string is spelled as \<open>toString\<close> prints
    \<open>i\<close> (in lower case);
  \<^item> \<open>Uncastable\<close>: \<open>isMongoId\<close> accepts it (its pattern allows a \<open>0x\<close> prefix) but the
    cast throws;
  \<^item> \<open>Castable i\<close>: \<open>isMongoId\<close> rejects it, the cast gives \<open>i\<close>;
  \<^item> \<open>NoId\<close>: \<open>isMongoId\<close> rejects it and the cast throws.
\<close>

datatype id_param = Id objectId bool | Uncastable | Castable objectId | NoId

fun isMongoId :: "id_param \<Rightarrow> bool" where
  "isMongoId (Id i c) = True"
| "isMongoId Uncastable = True"
| "isMongoId (Castable i) = False"
| "isMongoId NoId = False"

text \<open>The cast of a string to an ObjectId; \<open>None\<close> is the thrown cast error.\<close>

fun castObjectId :: "id_param \<Rightarrow> objectId option" where
  "castObjectId (Id i c) = Some i"
| "castObjectId Uncastable = None"
| "castObjectId (Castable i) = Some i"
| "castObjectId NoId = None"

text \<open>\<open>str === id.toString()\<close>\<close>

fun is_toString :: "id_param \<Rightarrow> objectId \<Rightarrow> bool" where
  "is_toString (Id i c) j = (c \<and> i = j)"
| "is_toString Uncastable j = False"
| "is_toString (Castable i) j = False"
| "is_toString NoId j = False"

text \<open>
  A request string where the code expects a date: one that \<open>isISO8601\<close> rejects; one
  that \<open>isISO8601\<close> accepts and \<open>Date.parse\<close> cannot read (a week date), which the
  \<open>toDate\<close> sanitizer turns into null; one that both accept, with the date it denotes.
\<close>

datatype date_param = NotISO8601 | NullDate | Date int

fun isISO8601 :: "date_param \<Rightarrow> bool" where
  "isISO8601 NotISO8601 = False"
| "isISO8601 NullDate = True"
| "isISO8601 (Date d) = True"

text \<open>A query string where the code expects an integer: a decimal integer, as \<open>isInt\<close>
  accepts it, or anything else.\<close>

datatype int_param = IntStr int | NotInt

text \<open>
  The JavaScript numbers that the list route computes with: an IEEE 754 double that holds
  a natural number, Infinity or NaN. \<open>to_double\<close> rounds a natural number to the nearest
  double, ties to even: numbers up to \<open>2^53\<close> are exact, larger ones keep their 53
  leading bits, and what rounds to \<open>2^1024\<close> or more is Infinity.
\<close>

datatype number = Num nat | Infinity | NaN

function excess_bits :: "nat \<Rightarrow> nat" where
  "excess_bits n = (if n < 2 ^ 53 then 0 else Suc (excess_bits (n div 2)))"
  by pat_completeness auto
termination
  by (relation "measure id") auto

definition round53 :: "nat \<Rightarrow> nat" where
  "round53 n =
     (let e = excess_bits n; q = n div 2 ^ e; r = n mod 2 ^ e
      in if 2 ^ e < 2 * r \<or> (2 * r = 2 ^ e \<and> odd q) then (q + 1) * 2 ^ e else q * 2 ^ e)"

definition to_double :: "nat \<Rightarrow> number" where
  "to_double n =
     (if n \<le> 2 ^ 53 then Num n
      else if 2 ^ 1024 \<le> round53 n then Infinity else Num (round53 n))"

text \<open>\<open>x - 1\<close> for a number \<open>x\<close> that is at least 1, and \<open>x * y\<close>: the exact result,
  rounded.\<close>

fun js_pred :: "number \<Rightarrow> number" where
  "js_pred (Num n) = to_double (n - 1)"
| "js_pred Infinity = Infinity"
| "js_pred NaN = NaN"

fun js_times :: "number \<Rightarrow> number \<Rightarrow> number" where
  "js_times (Num a) (Num b) = to_double (a * b)"
| "js_times (Num a) Infinity = (if a = 0 then NaN else Infinity)"
| "js_times Infinity (Num b) = (if b = 0 then NaN else Infinity)"
| "js_times Infinity Infinity = Infinity"
| "js_times NaN y = NaN"
| "js_times x NaN = NaN"

text \<open>The user document that \<open>authenticate\<close> attaches as \<open>req.user\<close>, and a row of the
  credential store.\<close>

record user =
  user_id :: objectId
  username :: string
  email :: string
  role :: string

text \<open>models/Task.js: the schema's paths, the \<open>_id\<close>, the two timestamps that
  \<open>timestamps: true\<close> adds and the version key \<open>__v\<close>.\<close>

record task =
  task_id :: objectId
  title :: jsstring
  description :: jsstring
  status :: string
  priority :: string
  dueDate :: "int option"
  assignedTo :: objectId
  createdBy :: objectId
  createdAt :: int
  updatedAt :: int
  version_key :: int

record db =
  tasks :: "task list"
  users :: "user list"

text \<open>A task after \<open>.populate('assignedTo', 'username email')\<close> and
  \<open>.populate('createdBy', 'username email')\<close>: each reference is replaced by the selected
  fields of the user it names, or by null when no such user is stored.\<close>

record user_ref =
  ref_id :: objectId
  ref_username :: string
  ref_email :: string

record populated =
  doc :: task
  assignedTo_ref :: "user_ref option"
  createdBy_ref :: "user_ref option"

text \<open>
  \<open>req.body\<close> of a create or update request, a JSON object. \<open>fields\<close> are its
  top-level keys that name the paths of the task schema which a client sets, each with a
  string for its value; these are all that the validators and the handlers' own checks
  read. \<open>b_operators\<close> stands for the rest of what the store acts on in an update, if
  the payload has any of it: top-level keys that name update operators (\<open>$set\<close>,
  \<open>$inc\<close>, \<open>$currentDate\<close> and the like) or the paths that the store keeps by itself
  (\<open>_id\<close>, \<open>__v\<close>, \<open>createdAt\<close>, \<open>updatedAt\<close>). The update handler passes
  \<open>req.body\<close> whole to \<open>findByIdAndUpdate\<close>, which executes them. Every other key is
  dropped by the schema's strict mode.
\<close>

record fields =
  b_title :: "jsstring option"
  b_description :: "jsstring option"
  b_status :: "string option"
  b_priority :: "string option"
  b_dueDate :: "date_param option"
  b_assignedTo :: "id_param option"
  b_createdBy :: "id_param option"

record 'o body = fields +
  b_operators :: "'o option"

text \<open>
  What the store does with an update document that has such keys is not in this
  repository; it is a parameter of the model: given the payload, the time and the stored
  task, the task as updated, or \<open>None\<close> when the store throws.
\<close>

type_synonym 'o engine = "'o body \<Rightarrow> int \<Rightarrow> task \<Rightarrow> task option"

text \<open>\<open>req.query\<close> of the list route: each parameter, where present, is one string.
  An empty \<open>assignedTo\<close> is falsy and counts as absent.\<close>

record list_query =
  q_page :: "int_param option"
  q_limit :: "int_param option"
  q_status :: "string option"
  q_priority :: "string option"
  q_assignedTo :: "id_param option"

text \<open>The error responses the handlers send.\<close>

datatype failure =
    ValidationFailed
  | AssignedUserNotFound
  | AccessDenied
  | TaskNotFound
  | ServerError

fun http_status :: "failure \<Rightarrow> nat" where
  "http_status ValidationFailed = 400"
| "http_status AssignedUserNotFound = 400"
| "http_status AccessDenied = 403"
| "http_status TaskNotFound = 404"
| "http_status ServerError = 500"

record pagination =
  current :: number
  pages :: int
  pagination_total :: nat
  limit :: number

record task_page =
  page_tasks :: "populated list"
  page_pagination :: pagination

record stats =
  stats_total :: nat
  pending :: nat
  inProgress :: nat
  completed :: nat
  highPriority :: nat
  mediumPriority :: nat
  lowPriority :: nat

section \<open>The store\<close>

fun findUser :: "user list \<Rightarrow> objectId \<Rightarrow> user option" where
  "findUser [] i = None"
| "findUser (u # us) i = (if user_id u = i then Some u else findUser us i)"

fun findTask :: "task list \<Rightarrow> objectId \<Rightarrow> task option" where
  "findTask [] i = None"
| "findTask (t # ts) i = (if task_id t = i then Some t else findTask ts i)"

text \<open>\<open>findByIdAndUpdate\<close> and \<open>findByIdAndDelete\<close> act on the one document with
  the given \<open>_id\<close>: the first match.\<close>

fun updateTask :: "objectId \<Rightarrow> (task \<Rightarrow> task) \<Rightarrow> task list \<Rightarrow> task list" where
  "updateTask i f [] = []"
| "updateTask i f (t # ts) = (if task_id t = i then f t # ts else t # updateTask i f ts)"

fun deleteTask :: "objectId \<Rightarrow> task list \<Rightarrow> task list" where
  "deleteTask i [] = []"
| "deleteTask i (t # ts) = (if task_id t = i then ts else t # deleteTask i ts)"

definition select_ref :: "user \<Rightarrow> user_ref" where
  "select_ref u = \<lparr>ref_id = user_id u, ref_username = username u, ref_email = email u\<rparr>"

definition populate :: "user list \<Rightarrow> task \<Rightarrow> populated" where
  "populate us t =
     \<lparr>doc = t,
      assignedTo_ref = map_option select_ref (findUser us (assignedTo t)),
      createdBy_ref = map_option select_ref (findUser us (createdBy t))\<rparr>"

text \<open>The \<open>_id\<close> generated for a new document: one that no stored task has.\<close>

definition fresh_id :: "task list \<Rightarrow> objectId" where
  "fresh_id ts = Suc (foldr max (map task_id ts) 0)"

section \<open>middleware/validation.js\<close>

text \<open>\<open>.trim()\<close> strips the white space of JavaScript (the class \<open>\\s\<close>) from both
  ends.\<close>

definition is_space :: "nat \<Rightarrow> bool" where
  "is_space c =
     (c \<in> set [0x09, 0x0A, 0x0B, 0x0C, 0x0D, 0x20, 0xA0, 0x1680, 0x2028, 0x2029, 0x202F,
               0x205F, 0x3000, 0xFEFF] \<or>
      (0x2000 \<le> c \<and> c \<le> 0x200A))"

definition trim :: "jsstring \<Rightarrow> jsstring" where
  "trim s = rev (dropWhile is_space (rev (dropWhile is_space s)))"

text \<open>
  \<open>isLength\<close> counts the code units of the string, less the variation selectors
  \<open>U+FE0E\<close> and \<open>U+FE0F\<close> and less one for every surrogate pair (the matches of
  \<open>/[\\uD800-\\uDBFF][\\uDC00-\\uDFFF]/g\<close>, found from the left).
\<close>

fun surrogatePairs :: "jsstring \<Rightarrow> nat" where
  "surrogatePairs (h # l # s) =
     (if 0xD800 \<le> h \<and> h \<le> 0xDBFF \<and> 0xDC00 \<le> l \<and> l \<le> 0xDFFF
      then Suc (surrogatePairs s) else surrogatePairs (l # s))"
| "surrogatePairs s = 0"

definition presentationSequences :: "jsstring \<Rightarrow> nat" where
  "presentationSequences s = length (filter (\<lambda>c. c = 0xFE0F \<or> c = 0xFE0E) s)"

definition isLength :: "nat \<Rightarrow> nat \<Rightarrow> jsstring \<Rightarrow> bool" where
  "isLength lo hi s =
     (let len = length s - presentationSequences s - surrogatePairs s
      in lo \<le> len \<and> len \<le> hi)"

definition status_values :: "string list" where
  "status_values = [''pending'', ''in-progress'', ''completed'']"

definition priority_values :: "string list" where
  "priority_values = [''low'', ''medium'', ''high'']"

definition isIn :: "string list \<Rightarrow> string \<Rightarrow> bool" where
  "isIn vs s = (s \<in> set vs)"

text \<open>\<open>.optional()\<close> skips a field that is absent.\<close>

fun optional :: "('a \<Rightarrow> bool) \<Rightarrow> 'a option \<Rightarrow> bool" where
  "optional chk None = True"
| "optional chk (Some v) = chk v"

text \<open>A required string field that is absent is validated as the empty string.\<close>

fun required_string :: "jsstring option \<Rightarrow> jsstring" where
  "required_string None = []"
| "required_string (Some s) = s"

definition validateTaskCreation :: "'a fields_scheme \<Rightarrow> bool" where
  "validateTaskCreation b =
     (isLength 1 100 (trim (required_string (b_title b))) \<and>
      isLength 1 500 (trim (required_string (b_description b))) \<and>
      optional (isIn status_values) (b_status b) \<and>
      optional (isIn priority_values) (b_priority b) \<and>
      optional isISO8601 (b_dueDate b) \<and>
      optional isMongoId (b_assignedTo b))"

definition validateTaskUpdate :: "'a fields_scheme \<Rightarrow> bool" where
  "validateTaskUpdate b =
     (optional (\<lambda>s. isLength 1 100 (trim s)) (b_title b) \<and>
      optional (\<lambda>s. isLength 1 500 (trim s)) (b_description b) \<and>
      optional (isIn status_values) (b_status b) \<and>
      optional (isIn priority_values) (b_priority b) \<and>
      optional isISO8601 (b_dueDate b) \<and>
      optional isMongoId (b_assignedTo b))"

text \<open>The sanitizers of both task chains write their results back into \<open>req.body\<close>
  before the handler reads it: \<open>.trim()\<close> the trimmed strings, and \<open>.toDate()\<close> the
  date or null, which is how \<open>date_param\<close> already presents the string.\<close>

definition trimmed :: "'a fields_scheme \<Rightarrow> 'a fields_scheme" where
  "trimmed b =
     b\<lparr>b_title := map_option trim (b_title b),
       b_description := map_option trim (b_description b)\<rparr>"

text \<open>\<open>param('id').isMongoId()\<close>\<close>

definition validateObjectId :: "id_param \<Rightarrow> bool" where
  "validateObjectId ip = isMongoId ip"

text \<open>
  \<open>query('page').optional().isInt({min: 1})\<close> and
  \<open>query('limit').optional().isInt({min: 1, max: 100})\<close>. When both pass, the handler
  reads the same strings again with \<open>parseInt\<close>; \<open>validatePagination\<close> gives the
  natural numbers they denote, \<open>None\<close> for an absent one.
\<close>

fun isInt_min_1 :: "int option \<Rightarrow> int_param option \<Rightarrow> nat option option" where
  "isInt_min_1 hi None = Some None"
| "isInt_min_1 hi (Some NotInt) = None"
| "isInt_min_1 hi (Some (IntStr n)) =
     (if 1 \<le> n \<and> (case hi of None \<Rightarrow> True | Some h \<Rightarrow> n \<le> h) then Some (Some (nat n))
      else None)"

definition validatePagination :: "list_query \<Rightarrow> (nat option \<times> nat option) option" where
  "validatePagination q =
     (case isInt_min_1 None (q_page q) of
        None \<Rightarrow> None
      | Some p \<Rightarrow>
         (case isInt_min_1 (Some 100) (q_limit q) of
            None \<Rightarrow> None
          | Some l \<Rightarrow> Some (p, l)))"

section \<open>models/Task.js: validation on save and on update\<close>

text \<open>The \<open>dueDate\<close> validator: \<open>!value || value > new Date()\<close>.\<close>

fun dueDate_validator :: "int \<Rightarrow> int option \<Rightarrow> bool" where
  "dueDate_validator now None = True"
| "dueDate_validator now (Some d) = (now < d)"

text \<open>What \<open>task.save()\<close> checks on the new document: \<open>required\<close>,
  \<open>maxlength\<close> (in code units), \<open>enum\<close> and the \<open>dueDate\<close> validator.\<close>

definition taskSchema_validate :: "int \<Rightarrow> task \<Rightarrow> bool" where
  "taskSchema_validate now t =
     (title t \<noteq> [] \<and> length (title t) \<le> 100 \<and>
      description t \<noteq> [] \<and> length (description t) \<le> 500 \<and>
      isIn status_values (status t) \<and>
      isIn priority_values (priority t) \<and>
      dueDate_validator now (dueDate t))"

text \<open>What \<open>findByIdAndUpdate\<close> with \<open>runValidators: true\<close> checks on a payload
  of task fields only: the same validators, on the paths the update sets, after casting
  them (a value that cannot be cast to the path's type is an error as well). A
  \<open>dueDate\<close> that \<open>isISO8601\<close> rejects never reaches the store.\<close>

fun dueDate_update_valid :: "int \<Rightarrow> date_param \<Rightarrow> bool" where
  "dueDate_update_valid now NotISO8601 = False"
| "dueDate_update_valid now NullDate = True"
| "dueDate_update_valid now (Date d) = (now < d)"

definition update_validate :: "int \<Rightarrow> 'a fields_scheme \<Rightarrow> bool" where
  "update_validate now b =
     (optional (\<lambda>s. trim s \<noteq> [] \<and> length (trim s) \<le> 100) (b_title b) \<and>
      optional (\<lambda>s. trim s \<noteq> [] \<and> length (trim s) \<le> 500) (b_description b) \<and>
      optional (isIn status_values) (b_status b) \<and>
      optional (isIn priority_values) (b_priority b) \<and>
      optional (dueDate_update_valid now) (b_dueDate b) \<and>
      optional (\<lambda>p. castObjectId p \<noteq> None) (b_assignedTo b) \<and>
      optional (\<lambda>p. castObjectId p \<noteq> None) (b_createdBy b))"

text \<open>The update by a payload of task fields only: every path present in the body is set
  (a null \<open>dueDate\<close> clears the due date), every other path is left as it is, and
  \<open>timestamps: true\<close> sets \<open>updatedAt\<close> to the time of the call.\<close>

fun set_string :: "'s option \<Rightarrow> 's \<Rightarrow> 's" where
  "set_string None old = old"
| "set_string (Some s) old = s"

fun set_id :: "id_param option \<Rightarrow> objectId \<Rightarrow> objectId" where
  "set_id None old = old"
| "set_id (Some p) old = (case castObjectId p of None \<Rightarrow> old | Some i \<Rightarrow> i)"

fun set_date :: "date_param option \<Rightarrow> int option \<Rightarrow> int option" where
  "set_date None old = old"
| "set_date (Some NotISO8601) old = old"
| "set_date (Some NullDate) old = None"
| "set_date (Some (Date d)) old = Some d"

definition apply_update :: "int \<Rightarrow> 'a fields_scheme \<Rightarrow> task \<Rightarrow> task" where
  "apply_update now b t =
     t\<lparr>title := set_string (map_option trim (b_title b)) (title t),
       description := set_string (map_option trim (b_description b)) (description t),
       status := set_string (b_status b) (status t),
       priority := set_string (b_priority b) (priority t),
       dueDate := set_date (b_dueDate b) (dueDate t),
       assignedTo := set_id (b_assignedTo b) (assignedTo t),
       createdBy := set_id (b_createdBy b) (createdBy t),
       updatedAt := now\<rparr>"

text \<open>\<open>Task.findByIdAndUpdate(id, req.body, {new: true, runValidators: true})\<close> on the
  stored task: the task as updated, or \<open>None\<close> when the store throws. A payload with
  \<open>b_operators\<close> is the engine's.\<close>

definition findByIdAndUpdate :: "'o engine \<Rightarrow> int \<Rightarrow> 'o body \<Rightarrow> task \<Rightarrow> task option" where
  "findByIdAndUpdate engine now b t =
     (case b_operators b of
        None \<Rightarrow> if update_validate now b then Some (apply_update now b t) else None
      | Some ops \<Rightarrow> engine b now t)"

section \<open>routes/tasks.js\<close>

subsection \<open>Query filters\<close>

text \<open>The filter object the list and statistics handlers build: the \<open>$or\<close> of
  \<open>assignedTo\<close> and \<open>createdBy\<close> for one user id, and the optional equalities.
  The \<open>assignedTo\<close> of the query string is stored as it came; the store casts it.\<close>

record task_filter =
  f_or :: "objectId option"
  f_status :: "string option"
  f_priority :: "string option"
  f_assignedTo :: "id_param option"

definition matches :: "task_filter \<Rightarrow> task \<Rightarrow> bool" where
  "matches f t =
     ((case f_or f of None \<Rightarrow> True | Some me \<Rightarrow> assignedTo t = me \<or> createdBy t = me) \<and>
      (case f_status f of None \<Rightarrow> True | Some s \<Rightarrow> status t = s) \<and>
      (case f_priority f of None \<Rightarrow> True | Some p \<Rightarrow> priority t = p) \<and>
      (case f_assignedTo f of
         None \<Rightarrow> True
       | Some p \<Rightarrow> (case castObjectId p of None \<Rightarrow> False | Some a \<Rightarrow> assignedTo t = a)))"

text \<open>The store casts a filter to the schema first: an \<open>assignedTo\<close> that is no
  ObjectId makes \<open>find\<close> and \<open>countDocuments\<close> throw.\<close>

definition castable :: "task_filter \<Rightarrow> bool" where
  "castable f = (case f_assignedTo f of None \<Rightarrow> True | Some p \<Rightarrow> castObjectId p \<noteq> None)"

text \<open>\<open>.sort({createdAt: -1})\<close>; documents created at the same time stay in the
  order of the store.\<close>

definition sort_createdAt_desc :: "task list \<Rightarrow> task list" where
  "sort_createdAt_desc ts = sort_key (\<lambda>t. - createdAt t) ts"

text \<open>
  \<open>Task.find(filter).sort({createdAt: -1}).skip(skip).limit(limit)\<close>; \<open>None\<close> when the
  store throws: the filter cannot be cast, or \<open>skip\<close> or \<open>limit\<close> is no 64-bit
  integer. (After \<open>validatePagination\<close> the limit is between 1 and 100. A limit of 0
  means no limit.)
\<close>

definition Task_find :: "task_filter \<Rightarrow> number \<Rightarrow> number \<Rightarrow> task list \<Rightarrow> task list option" where
  "Task_find f skip lmt ts =
     (if \<not> castable f then None
      else case (skip, lmt) of
             (Num s, Num l) \<Rightarrow>
               if s < 2 ^ 63 \<and> l < 2 ^ 63
               then Some ((if l = 0 then id else take l)
                            (drop s (sort_createdAt_desc (filter (matches f) ts))))
               else None
           | _ \<Rightarrow> None)"

definition Task_countDocuments :: "task_filter \<Rightarrow> task list \<Rightarrow> nat option" where
  "Task_countDocuments f ts =
     (if \<not> castable f then None else Some (length (filter (matches f) ts)))"

text \<open>\<open>if (req.user.role !== 'admin') filter.$or = [...]\<close>\<close>

definition own_tasks :: "user \<Rightarrow> objectId option" where
  "own_tasks caller = (if role caller \<noteq> ''admin'' then Some (user_id caller) else None)"

text \<open>\<open>if (req.query.status) filter.status = req.query.status\<close>: the empty string is
  falsy.\<close>

fun truthy :: "string option \<Rightarrow> string option" where
  "truthy None = None"
| "truthy (Some s) = (if s = [] then None else Some s)"

text \<open>\<open>parseInt(x) || d\<close> for an \<open>x\<close> that is absent (\<open>parseInt\<close> gives NaN, which
  is falsy) or a decimal natural number (0 is falsy).\<close>

fun parseInt_or :: "nat option \<Rightarrow> nat \<Rightarrow> number" where
  "parseInt_or None d = Num d"
| "parseInt_or (Some n) d = (if n = 0 then Num d else to_double n)"

subsection \<open>GET /tasks\<close>

text \<open>\<open>if (req.query.assignedTo) filter.assignedTo = req.query.assignedTo\<close>\<close>

definition build_filter :: "user \<Rightarrow> list_query \<Rightarrow> task_filter" where
  "build_filter caller q =
     \<lparr>f_or = own_tasks caller,
      f_status = truthy (q_status q),
      f_priority = truthy (q_priority q),
      f_assignedTo = q_assignedTo q\<rparr>"

text \<open>
  The handler, run on the page and the limit that \<open>validatePagination\<close> has let
  through. An error thrown by the store ends in the handler's \<open>catch\<close>: 500.
  \<open>Math.ceil(total / limit)\<close> divides doubles; for a limit up to 100 and any number of
  documents that a collection can hold (below \<open>2^46\<close>) its result is the ceiling of the
  exact quotient.
\<close>

definition list_handler ::
  "user \<Rightarrow> nat option \<Rightarrow> nat option \<Rightarrow> list_query \<Rightarrow> db \<Rightarrow> failure + task_page" where
  "list_handler caller p l q d =
     (let page = parseInt_or p 1;
          lmt = parseInt_or l 10;
          skip = js_times (js_pred page) lmt;
          f = build_filter caller q
      in case Task_find f skip lmt (tasks d) of
           None \<Rightarrow> Inl ServerError
         | Some found \<Rightarrow>
            (case Task_countDocuments f (tasks d) of
               None \<Rightarrow> Inl ServerError
             | Some total_count \<Rightarrow>
                Inr \<lparr>page_tasks = map (populate (users d)) found,
                     page_pagination =
                       \<lparr>current = page,
                        pages = (case lmt of
                                   Num n \<Rightarrow> \<lceil>real total_count / real n\<rceil>
                                 | _ \<Rightarrow> 0),
                        pagination_total = total_count,
                        limit = lmt\<rparr>\<rparr>))"

definition list_tasks :: "user \<Rightarrow> list_query \<Rightarrow> db \<Rightarrow> failure + task_page" where
  "list_tasks caller q d =
     (case validatePagination q of
        None \<Rightarrow> Inl ValidationFailed
      | Some (p, l) \<Rightarrow> list_handler caller p l q d)"

subsection \<open>GET /tasks/:id\<close>

text \<open>The access check of the handler. \<open>&&\<close> evaluates from the left and stops at the
  first false operand; \<open>task.assignedTo._id\<close> and \<open>task.createdBy._id\<close> throw when
  the populated reference is null, which is the result \<open>None\<close>.\<close>

definition access_denied :: "user \<Rightarrow> populated \<Rightarrow> bool option" where
  "access_denied caller t =
     (if role caller \<noteq> ''admin'' then
        (case assignedTo_ref t of
           None \<Rightarrow> None
         | Some a \<Rightarrow>
            if ref_id a \<noteq> user_id caller then
              (case createdBy_ref t of
                 None \<Rightarrow> None
               | Some c \<Rightarrow> Some (ref_id c \<noteq> user_id caller))
            else Some False)
      else Some False)"

definition get_handler :: "user \<Rightarrow> objectId \<Rightarrow> db \<Rightarrow> failure + populated" where
  "get_handler caller i d =
     (case findTask (tasks d) i of
        None \<Rightarrow> Inl TaskNotFound
      | Some t0 \<Rightarrow>
         (let t = populate (users d) t0
          in case access_denied caller t of
               None \<Rightarrow> Inl ServerError
             | Some True \<Rightarrow> Inl AccessDenied
             | Some False \<Rightarrow> Inr t))"

text \<open>The route: \<open>validateObjectId\<close>, then the handler, whose \<open>Task.findById\<close> casts
  the id and throws when it cannot.\<close>

definition get_task :: "user \<Rightarrow> id_param \<Rightarrow> db \<Rightarrow> failure + populated" where
  "get_task caller ip d =
     (if \<not> validateObjectId ip then Inl ValidationFailed
      else case castObjectId ip of
             None \<Rightarrow> Inl ServerError
           | Some i \<Rightarrow> get_handler caller i d)"

subsection \<open>POST /tasks\<close>

text \<open>\<open>status || 'pending'\<close> and \<open>priority || 'medium'\<close>.\<close>

fun or_default :: "string option \<Rightarrow> string \<Rightarrow> string" where
  "or_default None d = d"
| "or_default (Some s) d = (if s = [] then d else s)"

text \<open>The assignee of the new task: the caller, unless \<open>assignedTo\<close> is given, which
  then has to name a stored user. \<open>User.findById\<close> throws on a value that it cannot
  cast.\<close>

definition assignedUser :: "user \<Rightarrow> 'a fields_scheme \<Rightarrow> db \<Rightarrow> failure + objectId" where
  "assignedUser caller b d =
     (case b_assignedTo b of
        None \<Rightarrow> Inr (user_id caller)
      | Some a \<Rightarrow>
         (case castObjectId a of
            None \<Rightarrow> Inl ServerError
          | Some i \<Rightarrow>
             (case findUser (users d) i of
                None \<Rightarrow> Inl AssignedUserNotFound
              | Some u \<Rightarrow> Inr i)))"

text \<open>\<open>new Task({...})\<close>: the schema trims \<open>title\<close> and \<open>description\<close>; an
  absent string is no value, which \<open>required\<close> rejects like the empty string; a null
  \<open>dueDate\<close> is no due date.\<close>

definition new_task :: "int \<Rightarrow> user \<Rightarrow> 'a fields_scheme \<Rightarrow> objectId \<Rightarrow> db \<Rightarrow> task" where
  "new_task now caller b a d =
     \<lparr>task_id = fresh_id (tasks d),
      title = trim (required_string (b_title b)),
      description = trim (required_string (b_description b)),
      status = or_default (b_status b) ''pending'',
      priority = or_default (b_priority b) ''medium'',
      dueDate = set_date (b_dueDate b) None,
      assignedTo = a,
      createdBy = user_id caller,
      createdAt = now,
      updatedAt = now,
      version_key = 0\<rparr>"

text \<open>Every error that \<open>task.save()\<close> throws (a failed schema validator, a
  \<open>dueDate\<close> that is no date) ends in the handler's \<open>catch\<close>: 500.\<close>

definition create_handler ::
  "int \<Rightarrow> user \<Rightarrow> 'a fields_scheme \<Rightarrow> db \<Rightarrow> (failure + populated) \<times> db" where
  "create_handler now caller b d =
     (case assignedUser caller b d of
        Inl e \<Rightarrow> (Inl e, d)
      | Inr a \<Rightarrow>
         (let t = new_task now caller b a d
          in if b_dueDate b \<noteq> Some NotISO8601 \<and> taskSchema_validate now t
             then (Inr (populate (users d) t), d\<lparr>tasks := tasks d @ [t]\<rparr>)
             else (Inl ServerError, d)))"

definition create_task ::
  "int \<Rightarrow> user \<Rightarrow> 'a fields_scheme \<Rightarrow> db \<Rightarrow> (failure + populated) \<times> db" where
  "create_task now caller b d =
     (if validateTaskCreation b then create_handler now caller (trimmed b) d
      else (Inl ValidationFailed, d))"

subsection \<open>PUT /tasks/:id\<close>

text \<open>\<open>if (req.body.assignedTo && req.body.assignedTo !== task.assignedTo.toString())\<close>:
  the new assignee is looked up unless the string is the stored id as \<open>toString\<close>
  prints it. Only the top-level \<open>assignedTo\<close> is read.\<close>

definition assignee_change :: "'a fields_scheme \<Rightarrow> task \<Rightarrow> db \<Rightarrow> failure option" where
  "assignee_change b t d =
     (case b_assignedTo b of
        None \<Rightarrow> None
      | Some a \<Rightarrow>
         if \<not> is_toString a (assignedTo t) then
           (case castObjectId a of
              None \<Rightarrow> Some ServerError
            | Some i \<Rightarrow>
               (case findUser (users d) i of
                  None \<Rightarrow> Some AssignedUserNotFound
                | Some u \<Rightarrow> None))
         else None)"

definition update_handler ::
  "'o engine \<Rightarrow> int \<Rightarrow> user \<Rightarrow> objectId \<Rightarrow> 'o body \<Rightarrow> db \<Rightarrow> (failure + populated) \<times> db" where
  "update_handler engine now caller i b d =
     (case findTask (tasks d) i of
        None \<Rightarrow> (Inl TaskNotFound, d)
      | Some t \<Rightarrow>
         if role caller \<noteq> ''admin'' \<and>
            createdBy t \<noteq> user_id caller \<and>
            assignedTo t \<noteq> user_id caller
         then (Inl AccessDenied, d)
         else
           (case assignee_change b t d of
              Some e \<Rightarrow> (Inl e, d)
            | None \<Rightarrow>
               (case findByIdAndUpdate engine now b t of
                  None \<Rightarrow> (Inl ServerError, d)
                | Some t' \<Rightarrow>
                   (Inr (populate (users d) t'),
                    d\<lparr>tasks := updateTask i (\<lambda>old. t') (tasks d)\<rparr>))))"

definition update_task ::
  "'o engine \<Rightarrow> int \<Rightarrow> user \<Rightarrow> id_param \<Rightarrow> 'o body \<Rightarrow> db \<Rightarrow> (failure + populated) \<times> db" where
  "update_task engine now caller ip b d =
     (if \<not> validateObjectId ip then (Inl ValidationFailed, d)
      else if \<not> validateTaskUpdate b then (Inl ValidationFailed, d)
      else case castObjectId ip of
             None \<Rightarrow> (Inl ServerError, d)
           | Some i \<Rightarrow> update_handler engine now caller i (trimmed b) d)"

subsection \<open>DELETE /tasks/:id\<close>

definition delete_handler :: "user \<Rightarrow> objectId \<Rightarrow> db \<Rightarrow> (failure + unit) \<times> db" where
  "delete_handler caller i d =
     (case findTask (tasks d) i of
        None \<Rightarrow> (Inl TaskNotFound, d)
      | Some t \<Rightarrow>
         if role caller \<noteq> ''admin'' \<and> createdBy t \<noteq> user_id caller
         then (Inl AccessDenied, d)
         else (Inr (), d\<lparr>tasks := deleteTask i (tasks d)\<rparr>))"

definition delete_task :: "user \<Rightarrow> id_param \<Rightarrow> db \<Rightarrow> (failure + unit) \<times> db" where
  "delete_task caller ip d =
     (if \<not> validateObjectId ip then (Inl ValidationFailed, d)
      else case castObjectId ip of
             None \<Rightarrow> (Inl ServerError, d)
           | Some i \<Rightarrow> delete_handler caller i d)"

subsection \<open>GET /tasks/stats/overview\<close>

definition no_stats :: stats where
  "no_stats =
     \<lparr>stats_total = 0, pending = 0, inProgress = 0, completed = 0,
      highPriority = 0, mediumPriority = 0, lowPriority = 0\<rparr>"

text \<open>One step of the \<open>$group\<close> stage: each \<open>$sum\<close> adds 1 or the value of its
  \<open>$cond\<close>.\<close>

definition cond :: "bool \<Rightarrow> nat" where
  "cond c = (if c then 1 else 0)"

definition group_step :: "task \<Rightarrow> stats \<Rightarrow> stats" where
  "group_step t s =
     \<lparr>stats_total = stats_total s + 1,
      pending = pending s + cond (status t = ''pending''),
      inProgress = inProgress s + cond (status t = ''in-progress''),
      completed = completed s + cond (status t = ''completed''),
      highPriority = highPriority s + cond (priority t = ''high''),
      mediumPriority = mediumPriority s + cond (priority t = ''medium''),
      lowPriority = lowPriority s + cond (priority t = ''low'')\<rparr>"

text \<open>\<open>Task.aggregate([{$match: filter}, {$group: {_id: null, ...}}])\<close>: one group when
  a task matches, no group at all when none does.\<close>

definition aggregate :: "task_filter \<Rightarrow> task list \<Rightarrow> stats list" where
  "aggregate f ts =
     (case filter (matches f) ts of
        [] \<Rightarrow> []
      | m # ms \<Rightarrow> [fold group_step (m # ms) no_stats])"

text \<open>\<open>stats[0] || {total: 0, ...}\<close>\<close>

definition stats_overview :: "user \<Rightarrow> db \<Rightarrow> stats" where
  "stats_overview caller d =
     (case aggregate \<lparr>f_or = own_tasks caller, f_status = None, f_priority = None,
                       f_assignedTo = None\<rparr> (tasks d) of
        [] \<Rightarrow> no_stats
      | s # ss \<Rightarrow> s)"

section \<open>Example data\<close>

definition alice :: user where
  "alice = \<lparr>user_id = 1, username = ''alice'', email = ''alice@example.com'', role = ''user''\<rparr>"

definition bob :: user where
  "bob = \<lparr>user_id = 2, username = ''bob'', email = ''bob@example.com'', role = ''user''\<rparr>"

definition carol :: user where
  "carol = \<lparr>user_id = 3, username = ''carol'', email = ''carol@example.com'', role = ''user''\<rparr>"

definition root :: user where
  "root = \<lparr>user_id = 4, username = ''root'', email = ''admin@example.com'', role = ''admin''\<rparr>"

text \<open>A stored task with the given id, status, priority, assignee, creator and creation
  time.\<close>

definition mk_task :: "objectId \<Rightarrow> string \<Rightarrow> string \<Rightarrow> objectId \<Rightarrow> objectId \<Rightarrow> int \<Rightarrow> task" where
  "mk_task i st pr a c ms =
     \<lparr>task_id = i, title = utf16 ''report'', description = utf16 ''write the report'',
      status = st, priority = pr, dueDate = None, assignedTo = a, createdBy = c,
      createdAt = ms, updatedAt = ms, version_key = 0\<rparr>"

definition demo_db :: db where
  "demo_db =
     \<lparr>tasks = [mk_task 10 ''pending'' ''low'' 2 1 5,
               mk_task 11 ''in-progress'' ''high'' 2 2 6,
               mk_task 12 ''completed'' ''medium'' 1 1 7,
               mk_task 13 ''completed'' ''low'' 1 2 8],
      users = [alice, bob, carol, root]\<rparr>"

text \<open>Twenty-five tasks of one user and one task of another.\<close>

definition many_db :: db where
  "many_db =
     \<lparr>tasks = map (\<lambda>k. mk_task k ''pending'' ''low'' 2 2 (int k)) [0..<25] @
              [mk_task 100 ''pending'' ''high'' 1 1 3],
      users = [alice, bob]\<rparr>"

text \<open>A task whose creator is no longer stored, assigned to a stored user.\<close>

definition orphan_db :: db where
  "orphan_db = \<lparr>tasks = [mk_task 20 ''pending'' ''low'' 2 9 5], users = [alice, bob]\<rparr>"

definition no_query :: list_query where
  "no_query =
     \<lparr>q_page = None, q_limit = None, q_status = None, q_priority = None, q_assignedTo = None\<rparr>"

definition page3_query :: list_query where
  "page3_query = no_query\<lparr>q_page := Some (IntStr 3), q_limit := Some (IntStr 10)\<rparr>"

text \<open>\<open>?page=1&limit=10&assignedTo=me\<close>: the filter value is no ObjectId.\<close>

definition bad_assignee_query :: list_query where
  "bad_assignee_query =
     no_query\<lparr>q_page := Some (IntStr 1), q_limit := Some (IntStr 10), q_assignedTo := Some NoId\<rparr>"

text \<open>\<open>?page=9007199254740993&limit=10\<close>: the page is \<open>2^53 + 1\<close>.\<close>

definition huge_page_query :: list_query where
  "huge_page_query =
     no_query\<lparr>q_page := Some (IntStr 9007199254740993), q_limit := Some (IntStr 10)\<rparr>"

text \<open>Payloads of task fields only, and an engine for them, which is never consulted.\<close>

definition no_engine :: "unit engine" where
  "no_engine b now t = None"

definition no_body :: "unit body" where
  "no_body =
     \<lparr>b_title = None, b_description = None, b_status = None, b_priority = None,
      b_dueDate = None, b_assignedTo = None, b_createdBy = None, b_operators = None\<rparr>"

definition done_body :: "unit body" where
  "done_body = no_body\<lparr>b_status := Some ''completed''\<rparr>"

text \<open>\<open>{"status": "done"}\<close>, which \<open>validateTaskUpdate\<close> rejects.\<close>

definition invalid_body :: "unit body" where
  "invalid_body = no_body\<lparr>b_status := Some ''done''\<rparr>"

definition reassign_body :: "unit body" where
  "reassign_body =
     no_body\<lparr>b_title := Some (utf16 ''plan''), b_description := Some (utf16 ''make a plan''),
             b_assignedTo := Some (Id 99 True)\<rparr>"

definition takeover_body :: "unit body" where
  "takeover_body = no_body\<lparr>b_createdBy := Some (Id 2 True)\<rparr>"

definition past_due_body :: "unit body" where
  "past_due_body =
     no_body\<lparr>b_title := Some (utf16 ''plan''), b_description := Some (utf16 ''make a plan''),
             b_dueDate := Some (Date 50)\<rparr>"

lemmas demo_defs = alice_def bob_def carol_def root_def mk_task_def demo_db_def no_query_def
  no_body_def utf16_def

lemmas body_defs = done_body_def invalid_body_def reassign_body_def takeover_body_def
  past_due_body_def no_body_def utf16_def

section \<open>Facts about the store and the validators\<close>

lemma findUser_id: "findUser us i = Some u \<Longrightarrow> user_id u = i"
  by (induction us) (auto split: if_splits)

lemma findTask_id: "findTask ts i = Some t \<Longrightarrow> task_id t = i"
  by (induction ts) (auto split: if_splits)

lemma findTask_mem: "findTask ts i = Some t \<Longrightarrow> t \<in> set ts"
  by (induction ts) (auto split: if_splits)

lemma findTask_absent: "i \<notin> task_id ` set ts \<Longrightarrow> findTask ts i = None"
  by (induction ts) auto

lemma findTask_deleteTask:
  "distinct (map task_id ts) \<Longrightarrow> findTask (deleteTask i ts) i = None"
proof (induction ts)
  case Nil
  then show ?case by simp
next
  case (Cons t ts)
  from Cons show ?case by (auto simp: findTask_absent)
qed

lemma findTask_deleteTask_other:
  "j \<noteq> i \<Longrightarrow> findTask (deleteTask i ts) j = findTask ts j"
  by (induction ts) auto

lemma length_deleteTask:
  "findTask ts i = Some t \<Longrightarrow> Suc (length (deleteTask i ts)) = length ts"
  by (induction ts) (auto split: if_splits)

lemma task_id_apply_update: "task_id (apply_update now b t) = task_id t"
  by (simp add: apply_update_def)

lemma findTask_updateTask:
  assumes "\<And>t. task_id (f t) = task_id t"
  shows "findTask (updateTask i f ts) j = (if j = i then map_option f (findTask ts j) else findTask ts j)"
  using assms by (induction ts) auto

lemma updateTask_cong:
  assumes "\<And>t. findTask ts i = Some t \<Longrightarrow> f t = g t"
  shows "updateTask i f ts = updateTask i g ts"
  using assms by (induction ts) auto

lemma updateTask_id:
  assumes "\<And>t. findTask ts i = Some t \<Longrightarrow> f t = t"
  shows "updateTask i f ts = ts"
  using assms by (induction ts) auto

lemma updateTask_updatedAt_erased:
  "map (\<lambda>t. t\<lparr>updatedAt := 0\<rparr>) (updateTask i (\<lambda>t. t\<lparr>updatedAt := n\<rparr>) ts) =
   map (\<lambda>t. t\<lparr>updatedAt := 0\<rparr>) ts"
  by (induction ts) auto

lemma populate_refs:
  "assignedTo_ref (populate us t) = map_option select_ref (findUser us (assignedTo t))"
  "createdBy_ref (populate us t) = map_option select_ref (findUser us (createdBy t))"
  "doc (populate us t) = t"
  by (simp_all add: populate_def)

lemma route_id:
  "validateObjectId ip \<and> castObjectId ip = Some i \<longleftrightarrow> (\<exists>c. ip = Id i c)"
  by (cases ip) (auto simp: validateObjectId_def)

lemma dropWhile_trim:
  "dropWhile P (rev (dropWhile P (rev (dropWhile P xs)))) =
   rev (dropWhile P (rev (dropWhile P xs)))"
  by (metis (no_types, lifting) ext Nil_is_rev_conv dropWhile_eq_Nil_conv
      dropWhile_eq_self_iff dropWhile_idem dropWhile_last hd_rev last_rev)

lemma trim_idem: "trim (trim s) = trim s"
  by (simp add: trim_def dropWhile_trim)

lemma isLength_nonempty: "isLength (Suc n) hi s \<Longrightarrow> s \<noteq> []"
  by (auto simp: isLength_def Let_def)

lemma trimmed_fields:
  "b_assignedTo (trimmed b) = b_assignedTo b" "b_dueDate (trimmed b) = b_dueDate b"
  "b_createdBy (trimmed b) = b_createdBy b" "b_status (trimmed b) = b_status b"
  "b_priority (trimmed b) = b_priority b"
  "b_title (trimmed b) = map_option trim (b_title b)"
  "b_description (trimmed b) = map_option trim (b_description b)"
  by (simp_all add: trimmed_def)

lemma trimmed_operators: "b_operators (trimmed b) = b_operators b"
  by (simp add: trimmed_def)

lemma to_double_exact: "n \<le> 2 ^ 53 \<Longrightarrow> to_double n = Num n"
  by (simp add: to_double_def)

section \<open>Visibility: GET /tasks and GET /tasks/:id\<close>

lemma matches_own_tasks:
  "role caller \<noteq> ''admin'' \<Longrightarrow> matches f t \<Longrightarrow> f_or f = own_tasks caller \<Longrightarrow>
     assignedTo t = user_id caller \<or> createdBy t = user_id caller"
  by (simp add: matches_def own_tasks_def)

lemma Task_find_Some:
  assumes "Task_find f skip lmt ts = Some found"
  shows "castable f \<and>
         (\<exists>s n. skip = Num s \<and> lmt = Num n \<and> s < 2 ^ 63 \<and> n < 2 ^ 63 \<and>
            found = (if n = 0 then id else take n)
                      (drop s (sort_createdAt_desc (filter (matches f) ts))))"
  using assms
  by (auto simp: Task_find_def split: if_splits number.splits)

lemma Task_find_subset:
  assumes "Task_find f skip lmt ts = Some found" and "t \<in> set found"
  shows "matches f t \<and> t \<in> set ts"
proof -
  from Task_find_Some [OF assms(1)] obtain s n where
    found: "found = (if n = 0 then id else take n)
                      (drop s (sort_createdAt_desc (filter (matches f) ts)))"
    by blast
  from assms(2) have "t \<in> set (drop s (sort_createdAt_desc (filter (matches f) ts)))"
    unfolding found by (auto split: if_splits dest: in_set_takeD)
  then have "t \<in> set (sort_createdAt_desc (filter (matches f) ts))"
    by (rule in_set_dropD)
  then show ?thesis by (simp add: sort_createdAt_desc_def)
qed

lemma list_handler_items:
  assumes "list_handler caller p l q d = Inr pg" and "x \<in> set (page_tasks pg)"
  shows "matches (build_filter caller q) (doc x) \<and> doc x \<in> set (tasks d)"
proof -
  let ?skip = "js_times (js_pred (parseInt_or p 1)) (parseInt_or l 10)"
  from assms(1) obtain found where
    found: "Task_find (build_filter caller q) ?skip (parseInt_or l 10) (tasks d) = Some found"
    and pg: "page_tasks pg = map (populate (users d)) found"
    by (auto simp: list_handler_def Let_def split: option.splits)
  from assms(2) pg obtain t where t: "x = populate (users d) t" "t \<in> set found"
    by auto
  from Task_find_subset [OF found t(2)] t(1) show ?thesis
    by (simp add: populate_def)
qed

lemma get_handler_own:
  assumes "role caller \<noteq> ''admin''" and "get_handler caller i d = Inr p"
  shows "findTask (tasks d) i = Some (doc p) \<and>
         (assignedTo (doc p) = user_id caller \<or> createdBy (doc p) = user_id caller)"
proof -
  from assms(2) obtain t where t: "findTask (tasks d) i = Some t"
    by (auto simp: get_handler_def split: option.splits)
  with assms(2) have p: "p = populate (users d) t" and ad: "access_denied caller p = Some False"
    by (auto simp: get_handler_def Let_def split: option.splits bool.splits if_splits)
  from ad assms(1) have
    "(\<exists>a. assignedTo_ref p = Some a \<and> ref_id a = user_id caller) \<or>
     (\<exists>c. createdBy_ref p = Some c \<and> ref_id c = user_id caller)"
    by (auto simp: access_denied_def split: option.splits if_splits)
  then have "assignedTo t = user_id caller \<or> createdBy t = user_id caller"
    unfolding p populate_def by (auto simp: select_ref_def dest: findUser_id)
  with t p show ?thesis by (simp add: populate_def)
qed

text \<open>
  C1. A caller whose role is not admin never gets, with success, a task of which they are
  neither the assignee nor the creator: every task on a page that the list route returns,
  whatever the page, limit, status, priority and assignedTo parameters of the query, and
  the task that the get-by-id route returns, is a stored task whose \<open>assignedTo\<close> or
  \<open>createdBy\<close> is the caller.
\<close>

theorem non_admin_sees_only_own_tasks:
  assumes "role caller \<noteq> ''admin''"
  shows "(\<forall>q pg. list_tasks caller q d = Inr pg \<longrightarrow>
            (\<forall>p \<in> set (page_tasks pg).
               doc p \<in> set (tasks d) \<and>
               (assignedTo (doc p) = user_id caller \<or> createdBy (doc p) = user_id caller))) \<and>
         (\<forall>ip p. get_task caller ip d = Inr p \<longrightarrow>
            doc p \<in> set (tasks d) \<and>
            (assignedTo (doc p) = user_id caller \<or> createdBy (doc p) = user_id caller))"
proof (intro conjI allI impI ballI)
  fix q pg p
  assume "list_tasks caller q d = Inr pg" and mem: "p \<in> set (page_tasks pg)"
  then obtain pn ln where "list_handler caller pn ln q d = Inr pg"
    by (auto simp: list_tasks_def split: option.splits)
  from list_handler_items [OF this mem]
  have f: "matches (build_filter caller q) (doc p)" "doc p \<in> set (tasks d)" by simp_all
  show "doc p \<in> set (tasks d)" by (rule f(2))
  show "assignedTo (doc p) = user_id caller \<or> createdBy (doc p) = user_id caller"
    using matches_own_tasks [OF assms f(1)] by (simp add: build_filter_def)
next
  fix ip p
  assume "get_task caller ip d = Inr p"
  then obtain i where "get_handler caller i d = Inr p"
    by (auto simp: get_task_def split: option.splits if_splits)
  from get_handler_own [OF assms this]
  have own: "findTask (tasks d) i = Some (doc p)"
    "assignedTo (doc p) = user_id caller \<or> createdBy (doc p) = user_id caller" by simp_all
  show "doc p \<in> set (tasks d)" using own(1) by (rule findTask_mem)
  show "assignedTo (doc p) = user_id caller \<or> createdBy (doc p) = user_id caller"
    by (rule own(2))
qed

text \<open>The user bob lists the example tasks and fetches task 10, which is assigned to
  him.\<close>

theorem non_admin_sees_only_own_tasks_witness:
  "role bob \<noteq> ''admin'' \<and>
   (\<exists>pg. list_tasks bob no_query demo_db = Inr pg \<and>
      map (\<lambda>p. task_id (doc p)) (page_tasks pg) = [13, 11, 10] \<and>
      (\<forall>p \<in> set (page_tasks pg).
         assignedTo (doc p) = user_id bob \<or> createdBy (doc p) = user_id bob)) \<and>
   (\<exists>p. get_task bob (Id 10 True) demo_db = Inr p \<and>
      (assignedTo (doc p) = user_id bob \<or> createdBy (doc p) = user_id bob))"
proof -
  have r: "role bob \<noteq> ''admin''" by (simp add: bob_def)
  have l: "\<exists>pg. list_tasks bob no_query demo_db = Inr pg \<and>
             map (\<lambda>p. task_id (doc p)) (page_tasks pg) = [13, 11, 10]"
    by (simp add: list_tasks_def list_handler_def validatePagination_def Task_find_def
        Task_countDocuments_def castable_def to_double_def matches_def build_filter_def
        sort_createdAt_desc_def own_tasks_def populate_def demo_defs)
  have g: "\<exists>p. get_task bob (Id 10 True) demo_db = Inr p"
    by (simp add: get_task_def validateObjectId_def get_handler_def access_denied_def
        populate_def select_ref_def demo_defs)
  note own = non_admin_sees_only_own_tasks [OF r, of demo_db]
  from l obtain pg where pg: "list_tasks bob no_query demo_db = Inr pg"
    "map (\<lambda>p. task_id (doc p)) (page_tasks pg) = [13, 11, 10]" by auto
  from own pg(1) have listed: "\<forall>p \<in> set (page_tasks pg).
      assignedTo (doc p) = user_id bob \<or> createdBy (doc p) = user_id bob" by blast
  from g obtain p where p: "get_task bob (Id 10 True) demo_db = Inr p" by auto
  from own p have got: "assignedTo (doc p) = user_id bob \<or> createdBy (doc p) = user_id bob"
    by blast
  show ?thesis
    using r pg listed p got by (intro conjI exI [of _ pg] exI [of _ p])
qed

section \<open>Deleting: DELETE /tasks/:id\<close>

text \<open>
  C2. For a stored task, the delete route answers with success exactly when the caller is
  an admin or the task's creator. It then removes that one task and leaves every other
  task as it is. Every other caller, the assignee included, gets the 403 answer and the
  database is unchanged.
\<close>

theorem delete_task_creator_or_admin:
  assumes "findTask (tasks d) i = Some t"
  shows "((\<exists>d'. delete_task caller (Id i c) d = (Inr (), d')) \<longleftrightarrow>
            (role caller = ''admin'' \<or> createdBy t = user_id caller)) \<and>
         (role caller = ''admin'' \<or> createdBy t = user_id caller \<longrightarrow>
            delete_task caller (Id i c) d = (Inr (), d\<lparr>tasks := deleteTask i (tasks d)\<rparr>) \<and>
            Suc (length (deleteTask i (tasks d))) = length (tasks d) \<and>
            (distinct (map task_id (tasks d)) \<longrightarrow> findTask (deleteTask i (tasks d)) i = None) \<and>
            (\<forall>j. j \<noteq> i \<longrightarrow> findTask (deleteTask i (tasks d)) j = findTask (tasks d) j)) \<and>
         (role caller \<noteq> ''admin'' \<and> createdBy t \<noteq> user_id caller \<longrightarrow>
            delete_task caller (Id i c) d = (Inl AccessDenied, d) \<and>
            http_status AccessDenied = 403)"
  using assms
  by (auto simp: delete_task_def validateObjectId_def delete_handler_def findTask_deleteTask
      findTask_deleteTask_other length_deleteTask)

text \<open>Task 10 was created by alice and is assigned to bob: bob is refused, alice
  deletes it.\<close>

theorem delete_task_creator_or_admin_witness:
  "findTask (tasks demo_db) 10 = Some (mk_task 10 ''pending'' ''low'' 2 1 5) \<and>
   assignedTo (mk_task 10 ''pending'' ''low'' 2 1 5) = user_id bob \<and>
   delete_task bob (Id 10 True) demo_db = (Inl AccessDenied, demo_db) \<and>
   delete_task alice (Id 10 True) demo_db =
     (Inr (), demo_db\<lparr>tasks := deleteTask 10 (tasks demo_db)\<rparr>) \<and>
   findTask (deleteTask 10 (tasks demo_db)) 10 = None"
proof -
  have f: "findTask (tasks demo_db) 10 = Some (mk_task 10 ''pending'' ''low'' 2 1 5)"
    by (simp add: demo_defs)
  have dist: "distinct (map task_id (tasks demo_db))" by (simp add: demo_defs)
  from delete_task_creator_or_admin [OF f, of bob True]
    delete_task_creator_or_admin [OF f, of alice True] f dist
  show ?thesis by (simp add: demo_defs)
qed

section \<open>Statistics: GET /tasks/stats/overview\<close>

lemma fold_group_step_total:
  "stats_total (fold group_step ts s) = stats_total s + length ts"
  by (induction ts arbitrary: s) (simp_all add: group_step_def)

lemma fold_group_step_pending:
  "pending (fold group_step ts s) = pending s + length (filter (\<lambda>t. status t = ''pending'') ts)"
  by (induction ts arbitrary: s) (simp_all add: group_step_def cond_def)

lemma fold_group_step_inProgress:
  "inProgress (fold group_step ts s) =
     inProgress s + length (filter (\<lambda>t. status t = ''in-progress'') ts)"
  by (induction ts arbitrary: s) (simp_all add: group_step_def cond_def)

lemma fold_group_step_completed:
  "completed (fold group_step ts s) =
     completed s + length (filter (\<lambda>t. status t = ''completed'') ts)"
  by (induction ts arbitrary: s) (simp_all add: group_step_def cond_def)

lemma status_partition:
  "\<forall>t \<in> set ts. isIn status_values (status t) \<Longrightarrow>
     length (filter (\<lambda>t. status t = ''pending'') ts) +
     length (filter (\<lambda>t. status t = ''in-progress'') ts) +
     length (filter (\<lambda>t. status t = ''completed'') ts) = length ts"
  by (induction ts) (auto simp: isIn_def status_values_def)

lemma stats_overview_fold:
  "stats_overview caller d =
     fold group_step
       (filter (matches \<lparr>f_or = own_tasks caller, f_status = None, f_priority = None,
                         f_assignedTo = None\<rparr>) (tasks d)) no_stats"
  by (simp add: stats_overview_def aggregate_def split: list.splits)

lemma matches_own:
  "matches \<lparr>f_or = own_tasks caller, f_status = None, f_priority = None, f_assignedTo = None\<rparr>
     = (\<lambda>t. role caller = ''admin'' \<or> assignedTo t = user_id caller \<or>
             createdBy t = user_id caller)"
  by (rule ext) (simp add: matches_def own_tasks_def)

text \<open>
  C8. When every stored task has one of the three statuses, the statistics route counts,
  over the tasks the caller may see (all of them for an admin, those assigned to or
  created by the caller otherwise), a total that is the sum of the pending, in-progress
  and completed counts; each count is the number of visible tasks with that status.
\<close>

theorem stats_overview_counts_sum:
  assumes "\<forall>t \<in> set (tasks d). isIn status_values (status t)"
  shows "(let visible = filter (\<lambda>t. role caller = ''admin'' \<or> assignedTo t = user_id caller \<or>
                                   createdBy t = user_id caller) (tasks d);
              s = stats_overview caller d
          in stats_total s = length visible \<and>
             pending s = length (filter (\<lambda>t. status t = ''pending'') visible) \<and>
             inProgress s = length (filter (\<lambda>t. status t = ''in-progress'') visible) \<and>
             completed s = length (filter (\<lambda>t. status t = ''completed'') visible) \<and>
             pending s + inProgress s + completed s = stats_total s)"
proof -
  let ?own = "\<lparr>f_or = own_tasks caller, f_status = None, f_priority = None,
               f_assignedTo = None\<rparr>"
  let ?vis = "filter (matches ?own) (tasks d)"
  have vis: "?vis = filter (\<lambda>t. role caller = ''admin'' \<or> assignedTo t = user_id caller \<or>
                                createdBy t = user_id caller) (tasks d)"
    by (simp add: matches_own)
  have "\<forall>t \<in> set ?vis. isIn status_values (status t)"
    using assms by simp
  then have part: "length (filter (\<lambda>t. status t = ''pending'') ?vis) +
     length (filter (\<lambda>t. status t = ''in-progress'') ?vis) +
     length (filter (\<lambda>t. status t = ''completed'') ?vis) = length ?vis"
    by (rule status_partition)
  have tot: "stats_total (stats_overview caller d) = length ?vis"
    by (simp add: stats_overview_fold fold_group_step_total no_stats_def)
  have pen: "pending (stats_overview caller d) = length (filter (\<lambda>t. status t = ''pending'') ?vis)"
    by (simp add: stats_overview_fold fold_group_step_pending no_stats_def)
  have inp: "inProgress (stats_overview caller d) =
               length (filter (\<lambda>t. status t = ''in-progress'') ?vis)"
    by (simp add: stats_overview_fold fold_group_step_inProgress no_stats_def)
  have com: "completed (stats_overview caller d) =
               length (filter (\<lambda>t. status t = ''completed'') ?vis)"
    by (simp add: stats_overview_fold fold_group_step_completed no_stats_def)
  show ?thesis
    unfolding Let_def using tot pen inp com part vis by metis
qed

text \<open>bob sees three of the four example tasks.\<close>

theorem stats_overview_counts_sum_witness:
  "list_all (\<lambda>t. isIn status_values (status t)) (tasks demo_db) \<and>
   stats_total (stats_overview bob demo_db) = 3 \<and>
   pending (stats_overview bob demo_db) + inProgress (stats_overview bob demo_db) +
     completed (stats_overview bob demo_db) = stats_total (stats_overview bob demo_db)"
proof -
  have h: "\<forall>t \<in> set (tasks demo_db). isIn status_values (status t)"
    by (simp add: demo_defs isIn_def status_values_def)
  have n: "stats_total (stats_overview bob demo_db) = 3"
    by (simp add: stats_overview_fold matches_own group_step_def no_stats_def demo_defs)
  from stats_overview_counts_sum [OF h, of bob] h n show ?thesis
    by (simp add: Let_def list_all_iff)
qed

section \<open>Dangling references in GET /tasks/:id\<close>

lemma access_denied_None_iff:
  assumes "role caller \<noteq> ''admin''"
  shows "access_denied caller (populate us t) = None \<longleftrightarrow>
         findUser us (assignedTo t) = None \<or>
         (assignedTo t \<noteq> user_id caller \<and> findUser us (createdBy t) = None)"
  using assms
  by (auto simp: access_denied_def populate_refs select_ref_def
      split: option.splits dest: findUser_id)

text \<open>For a stored task with a dangling reference, some caller who is no admin does
  get the 500: any caller other than the assignee.\<close>

lemma get_task_server_error_for_some_caller:
  assumes "findTask (tasks d) i = Some t"
    and "findUser (users d) (assignedTo t) = None \<or> findUser (users d) (createdBy t) = None"
  shows "\<exists>caller. role caller \<noteq> ''admin'' \<and> get_task caller (Id i c) d = Inl ServerError"
proof -
  let ?c = "\<lparr>user_id = Suc (assignedTo t), username = [], email = [], role = ''user''\<rparr>"
  have na: "role ?c \<noteq> ''admin''" by simp
  have "access_denied ?c (populate (users d) t) = None"
    using assms(2) by (auto simp: access_denied_None_iff [OF na])
  then have "get_task ?c (Id i c) d = Inl ServerError"
    using assms(1) by (simp add: get_task_def validateObjectId_def get_handler_def)
  with na show ?thesis by blast
qed

text \<open>
  C10, as stated, fails: the access check stops at the first false operand of \<open>&&\<close>.
  Task 20 is assigned to bob and its creator is not stored; bob, who is no admin, fetches
  it and gets the task with success, not the 500.
\<close>

theorem get_task_dangling_creator_counterexample:
  "role bob \<noteq> ''admin'' \<and>
   findTask (tasks orphan_db) 20 = Some (mk_task 20 ''pending'' ''low'' 2 9 5) \<and>
   findUser (users orphan_db) (createdBy (mk_task 20 ''pending'' ''low'' 2 9 5)) = None \<and>
   get_task bob (Id 20 True) orphan_db =
     Inr (populate (users orphan_db) (mk_task 20 ''pending'' ''low'' 2 9 5)) \<and>
   get_task bob (Id 20 True) orphan_db \<noteq> Inl ServerError"
  by (simp add: get_task_def validateObjectId_def get_handler_def access_denied_def
      populate_def select_ref_def orphan_db_def demo_defs)

text \<open>
  C10, amended. For a stored task and a caller who is no admin, the get-by-id route
  answers 500 exactly when the access check throws, which is exactly when the assignee is
  not stored, or the assignee is not the caller and the creator is not stored. When the
  caller is the stored assignee, the creator is never dereferenced and the task is
  returned. For an admin nothing is dereferenced and the task is returned.
\<close>

theorem get_task_server_error_iff:
  assumes "findTask (tasks d) i = Some t"
  shows "(role caller \<noteq> ''admin'' \<longrightarrow>
            (get_task caller (Id i c) d = Inl ServerError \<longleftrightarrow>
               findUser (users d) (assignedTo t) = None \<or>
               (assignedTo t \<noteq> user_id caller \<and> findUser (users d) (createdBy t) = None)) \<and>
            (access_denied caller (populate (users d) t) = None \<longleftrightarrow>
               findUser (users d) (assignedTo t) = None \<or>
               (assignedTo t \<noteq> user_id caller \<and> findUser (users d) (createdBy t) = None)) \<and>
            (assignedTo t = user_id caller \<and> findUser (users d) (assignedTo t) \<noteq> None \<longrightarrow>
               get_task caller (Id i c) d = Inr (populate (users d) t))) \<and>
         (role caller = ''admin'' \<longrightarrow>
            get_task caller (Id i c) d = Inr (populate (users d) t))"
proof (intro conjI impI)
  assume na: "role caller \<noteq> ''admin''"
  note iff = access_denied_None_iff [OF na, of "users d" t]
  show "access_denied caller (populate (users d) t) = None \<longleftrightarrow>
               findUser (users d) (assignedTo t) = None \<or>
               (assignedTo t \<noteq> user_id caller \<and> findUser (users d) (createdBy t) = None)"
    by (rule iff)
  have "get_task caller (Id i c) d = Inl ServerError \<longleftrightarrow>
        access_denied caller (populate (users d) t) = None"
    using assms
    by (auto simp: get_task_def validateObjectId_def get_handler_def Let_def
        split: option.splits bool.splits)
  then show "get_task caller (Id i c) d = Inl ServerError \<longleftrightarrow>
               findUser (users d) (assignedTo t) = None \<or>
               (assignedTo t \<noteq> user_id caller \<and> findUser (users d) (createdBy t) = None)"
    using iff by simp
  assume "assignedTo t = user_id caller \<and> findUser (users d) (assignedTo t) \<noteq> None"
  then have "access_denied caller (populate (users d) t) = Some False"
    using na
    by (auto simp: access_denied_def populate_refs select_ref_def dest: findUser_id)
  then show "get_task caller (Id i c) d = Inr (populate (users d) t)"
    using assms by (simp add: get_task_def validateObjectId_def get_handler_def)
next
  assume "role caller = ''admin''"
  then show "get_task caller (Id i c) d = Inr (populate (users d) t)"
    using assms by (simp add: get_task_def validateObjectId_def get_handler_def access_denied_def)
qed

text \<open>The creator of task 20 is not stored: alice gets the 500, bob, the assignee, gets
  the task.\<close>

theorem get_task_server_error_iff_witness:
  "findTask (tasks orphan_db) 20 = Some (mk_task 20 ''pending'' ''low'' 2 9 5) \<and>
   role alice \<noteq> ''admin'' \<and> role bob \<noteq> ''admin'' \<and>
   findUser (users orphan_db) (createdBy (mk_task 20 ''pending'' ''low'' 2 9 5)) = None \<and>
   get_task alice (Id 20 True) orphan_db = Inl ServerError \<and>
   get_task bob (Id 20 True) orphan_db =
     Inr (populate (users orphan_db) (mk_task 20 ''pending'' ''low'' 2 9 5))"
proof -
  let ?t = "mk_task 20 ''pending'' ''low'' 2 9 5"
  have f: "findTask (tasks orphan_db) 20 = Some ?t" by (simp add: orphan_db_def demo_defs)
  have ra: "role alice \<noteq> ''admin''" and rb: "role bob \<noteq> ''admin''" by (simp_all add: demo_defs)
  have dang: "findUser (users orphan_db) (createdBy ?t) = None"
    by (simp add: orphan_db_def demo_defs)
  have na: "assignedTo ?t \<noteq> user_id alice" by (simp add: demo_defs)
  have ab: "assignedTo ?t = user_id bob \<and> findUser (users orphan_db) (assignedTo ?t) \<noteq> None"
    by (simp add: orphan_db_def demo_defs)
  from get_task_server_error_iff [OF f, of alice True] ra dang na
  have a: "get_task alice (Id 20 True) orphan_db = Inl ServerError" by blast
  from get_task_server_error_iff [OF f, of bob True] rb ab
  have b: "get_task bob (Id 20 True) orphan_db = Inr (populate (users orphan_db) ?t)" by blast
  from f ra rb dang a b show ?thesis by simp
qed

section \<open>The creator of a task\<close>

text \<open>What the code does keep: the create route stores the caller as \<open>createdBy\<close>,
  and an update whose payload sets task fields only, \<open>createdBy\<close> not among them,
  leaves the creator of every task as it is.\<close>

lemma create_task_createdBy:
  assumes "create_task now caller b d = (Inr p, d')"
  shows "createdBy (doc p) = user_id caller \<and> tasks d' = tasks d @ [doc p]"
  using assms
  by (auto simp: create_task_def create_handler_def new_task_def populate_def Let_def
      split: if_splits sum.splits)

lemma update_task_keeps_createdBy:
  assumes "b_createdBy b = None" and "b_operators b = None"
  shows "map_option createdBy (findTask (tasks (snd (update_task engine now caller ip b d))) j) =
         map_option createdBy (findTask (tasks d) j)"
proof -
  have keep: "createdBy (apply_update now (trimmed b) t) = createdBy t" for t
    using assms by (simp add: apply_update_def trimmed_fields)
  have "map_option createdBy
          (findTask (updateTask i (\<lambda>old. apply_update now (trimmed b) t) ts) j) =
        map_option createdBy (findTask ts j)" if "findTask ts i = Some t" for i ts t
  proof -
    have "updateTask i (\<lambda>old. apply_update now (trimmed b) t) ts =
          updateTask i (apply_update now (trimmed b)) ts"
      by (rule updateTask_cong) (simp add: that)
    then show ?thesis
      by (cases "findTask ts j")
        (auto simp: findTask_updateTask task_id_apply_update keep)
  qed
  then show ?thesis
    using assms(2)
    by (auto simp: update_task_def update_handler_def findByIdAndUpdate_def trimmed_operators
        split: option.splits if_splits)
qed

text \<open>
  C4. The claim is that no update changes \<open>createdBy\<close>, whatever the payload. The handler
  passes the whole of \<open>req.body\<close> to \<open>findByIdAndUpdate\<close>, and
  \<open>validateTaskUpdate\<close> has no rule for \<open>createdBy\<close>: bob, the assignee of task 10,
  which alice created, sends \<open>{createdBy: <bob's id>}\<close>; the payload passes the
  validator, the update succeeds, and the stored creator of task 10 is bob.
\<close>

theorem update_task_overwrites_createdBy:
  "validateTaskUpdate takeover_body \<and>
   map_option createdBy (findTask (tasks demo_db) 10) = Some (user_id alice) \<and>
   map_option assignedTo (findTask (tasks demo_db) 10) = Some (user_id bob) \<and>
   fst (update_task no_engine 100 bob (Id 10 True) takeover_body demo_db) =
     Inr (populate (users demo_db)
           ((mk_task 10 ''pending'' ''low'' 2 2 5)\<lparr>updatedAt := 100\<rparr>)) \<and>
   map_option createdBy
     (findTask (tasks (snd (update_task no_engine 100 bob (Id 10 True) takeover_body demo_db)))
        10) =
     Some (user_id bob)"
proof -
  have v: "validateTaskUpdate takeover_body"
    by (simp add: validateTaskUpdate_def body_defs)
  have uv: "update_validate 100 (trimmed takeover_body)"
    by (simp add: update_validate_def trimmed_def body_defs)
  show ?thesis
    using v uv
    by (simp add: update_task_def validateObjectId_def update_handler_def assignee_change_def
        findByIdAndUpdate_def apply_update_def trimmed_def body_defs demo_defs)
qed

section \<open>Due dates\<close>

text \<open>What the code does: a request without a due date that passes
  \<open>validateTaskCreation\<close>, names no unknown assignee and whose title and description
  are within the schema's limits creates the task; a request whose due date is not in the
  future is rejected and nothing is stored, and when nothing else is wrong with it the
  rejection is the 500 of the handler's \<open>catch\<close>.\<close>

lemma or_default_isIn:
  assumes "optional (isIn vs) v" and "isIn vs dflt" and "[] \<notin> set vs"
  shows "isIn vs (or_default v dflt)"
  using assms by (cases v) (auto simp: isIn_def)

lemma create_task_without_dueDate:
  assumes "validateTaskCreation b" and "b_dueDate b = None"
    and "\<forall>a. b_assignedTo b = Some a \<longrightarrow>
           (\<exists>i u. castObjectId a = Some i \<and> findUser (users d) i = Some u)"
    and "length (trim (required_string (b_title b))) \<le> 100"
    and "length (trim (required_string (b_description b))) \<le> 500"
  shows "\<exists>t. create_task now caller b d =
               (Inr (populate (users d) t), d\<lparr>tasks := tasks d @ [t]\<rparr>) \<and>
             createdBy t = user_id caller \<and> dueDate t = None"
proof -
  have "\<exists>a. assignedUser caller (trimmed b) d = Inr a"
    using assms(3)
    by (cases "b_assignedTo b") (auto simp: assignedUser_def trimmed_fields)
  then obtain a where a: "assignedUser caller (trimmed b) d = Inr a" ..
  let ?t = "new_task now caller (trimmed b) a d"
  have tt: "title ?t = trim (required_string (b_title b))"
    "description ?t = trim (required_string (b_description b))"
    by (cases "b_title b"; cases "b_description b";
        simp add: new_task_def trimmed_fields trim_idem)+
  from assms(1) have "isLength (Suc 0) 100 (title ?t)" "isLength (Suc 0) 500 (description ?t)"
    unfolding tt by (simp_all add: validateTaskCreation_def)
  then have ne: "title ?t \<noteq> []" "description ?t \<noteq> []"
    by (auto dest: isLength_nonempty)
  from assms(4,5) have len: "length (title ?t) \<le> 100" "length (description ?t) \<le> 500"
    unfolding tt by simp_all
  from assms(1) have opt: "optional (isIn status_values) (b_status b)"
    "optional (isIn priority_values) (b_priority b)"
    by (simp_all add: validateTaskCreation_def)
  have "isIn status_values (or_default (b_status b) ''pending'')"
    by (rule or_default_isIn [OF opt(1)]) (simp_all add: isIn_def status_values_def)
  then have st: "isIn status_values (status ?t)"
    by (simp add: new_task_def trimmed_fields)
  have "isIn priority_values (or_default (b_priority b) ''medium'')"
    by (rule or_default_isIn [OF opt(2)]) (simp_all add: isIn_def priority_values_def)
  then have pr: "isIn priority_values (priority ?t)"
    by (simp add: new_task_def trimmed_fields)
  have due: "dueDate ?t = None"
    using assms(2) by (simp add: new_task_def trimmed_fields)
  have "taskSchema_validate now ?t"
    unfolding taskSchema_validate_def using ne len st pr due by simp
  moreover have "b_dueDate (trimmed b) \<noteq> Some NotISO8601"
    using assms(2) by (simp add: trimmed_fields)
  ultimately have "create_task now caller b d =
      (Inr (populate (users d) ?t), d\<lparr>tasks := tasks d @ [?t]\<rparr>)"
    using assms(1) a by (simp add: create_task_def create_handler_def Let_def)
  moreover have "createdBy ?t = user_id caller \<and> dueDate ?t = None"
    using assms(2) by (simp add: new_task_def trimmed_fields)
  ultimately show ?thesis by blast
qed

lemma create_task_past_dueDate:
  assumes "b_dueDate b = Some (Date due)" and "due \<le> now"
  shows "\<exists>e. create_task now caller b d = (Inl e, d) \<and>
             (validateTaskCreation b \<and>
              (\<forall>a. b_assignedTo b = Some a \<longrightarrow>
                 (\<exists>i u. castObjectId a = Some i \<and> findUser (users d) i = Some u))
              \<longrightarrow> e = ServerError)"
proof (cases "validateTaskCreation b")
  case False
  then show ?thesis by (simp add: create_task_def)
next
  case True
  have nv: "\<not> taskSchema_validate now (new_task now caller (trimmed b) a d)" for a
    using assms by (simp add: taskSchema_validate_def new_task_def trimmed_fields)
  show ?thesis
  proof (cases "assignedUser caller (trimmed b) d")
    case (Inl e)
    then have "\<exists>a. b_assignedTo b = Some a \<and>
        \<not> (\<exists>i u. castObjectId a = Some i \<and> findUser (users d) i = Some u)"
      by (cases "b_assignedTo b")
        (auto simp: assignedUser_def trimmed_fields split: option.splits)
    with Inl True show ?thesis
      by (auto simp: create_task_def create_handler_def)
  next
    case (Inr a)
    with True nv show ?thesis
      by (simp add: create_task_def create_handler_def)
  qed
qed

text \<open>
  C6. The claim is that a due date that is not in the future is rejected with the 400
  validation answer. \<open>validateTaskCreation\<close> only checks that \<open>dueDate\<close> is a date;
  the schema's validator rejects it in \<open>task.save()\<close>, and the handler's \<open>catch\<close>
  answers every thrown error with 500 "Server error while creating task": alice, at time
  100, creates a task with title, description and the due date 50; the answer is 500 and
  nothing is stored.
\<close>

theorem create_task_past_dueDate_server_error:
  "validateTaskCreation past_due_body \<and>
   b_dueDate past_due_body = Some (Date 50) \<and>
   create_task 100 alice past_due_body demo_db = (Inl ServerError, demo_db) \<and>
   http_status ServerError = 500"
proof -
  have v: "validateTaskCreation past_due_body"
    by (simp add: validateTaskCreation_def body_defs isLength_def presentationSequences_def
        trim_def is_space_def)
  show ?thesis
    using v
    by (simp add: create_task_def create_handler_def assignedUser_def new_task_def
        taskSchema_validate_def trimmed_def body_defs)
qed

section \<open>Updating: PUT /tasks/:id\<close>





lemma is_toString_castable: "is_toString a j \<Longrightarrow> castObjectId a = Some j"
  by (cases a) auto





section \<open>References to users\<close>







section \<open>Pagination\<close>

lemma sorted_createdAt_desc:
  "sorted_wrt (\<lambda>a b. createdAt b \<le> createdAt a) (sort_createdAt_desc ts)"
proof -
  have "sorted (map (\<lambda>t. - createdAt t) (sort_key (\<lambda>t. - createdAt t) ts))"
    by (rule sorted_sort_key)
  then show ?thesis
    by (simp add: sort_createdAt_desc_def sorted_wrt_map)
qed

lemma mset_sort_createdAt_desc: "mset (sort_createdAt_desc ts) = mset ts"
  by (simp add: sort_createdAt_desc_def)

lemma length_sort_createdAt_desc: "length (sort_createdAt_desc ts) = length ts"
  by (simp add: sort_createdAt_desc_def)

lemma page_length:
  assumes "1 \<le> l" and "1 \<le> p"
  shows "length (take l (drop ((p - 1) * l) xs)) = min (p * l) (length xs) - (p - 1) * l"
proof (cases p)
  case 0
  with assms show ?thesis by simp
next
  case (Suc k)
  then show ?thesis by (simp add: min_def) arith
qed

lemma page_nth:
  assumes "k < length (take n (drop s xs))"
  shows "take n (drop s xs) ! k = xs ! (s + k)"
proof -
  from assms have "k < n" and "k < length xs - s" by simp_all
  then have "s \<le> length xs" by arith
  with \<open>k < n\<close> show ?thesis by (simp add: nth_drop)
qed

lemma pages_25_10: "\<lceil>real (25::nat) / real (10::nat)\<rceil> = 3"
  by (simp add: ceiling_eq_iff)

lemma upt_25: "[0..<25] = [0,1,2,3,4,5,6,7,8,9,10,11,12,13,14,15,16,17,18,19,20,21,22,23,24]"
  by code_simp

text \<open>Within \<open>2^53\<close> the numbers of the handler are exact.\<close>

lemma skip_exact:
  assumes "1 \<le> p" and "1 \<le> l" and "p * l \<le> 2 ^ 53"
  shows "parseInt_or (Some p) 1 = Num p"
    and "js_times (js_pred (Num p)) (Num l) = Num ((p - 1) * l)"
proof -
  from assms(2) have "p \<le> p * l" by simp
  then have p: "p \<le> 2 ^ 53" using assms(3) by (rule le_trans)
  then show "parseInt_or (Some p) 1 = Num p"
    using assms(1) by (simp add: to_double_exact)
  from p have p1: "p - 1 \<le> 2 ^ 53" by simp
  have "(p - 1) * l \<le> p * l" by simp
  then have "(p - 1) * l \<le> 2 ^ 53" using assms(3) by (rule le_trans)
  with p1 show "js_times (js_pred (Num p)) (Num l) = Num ((p - 1) * l)"
    by (simp add: to_double_exact)
qed

text \<open>
  C7, as stated, fails on two kinds of request that pass \<open>validatePagination\<close>.
  \<^item> The \<open>assignedTo\<close> of the query is not validated: for \<open>?page=1&limit=10&assignedTo=me\<close>
    the store cannot cast the filter and the answer is 500, with no pagination at all.
  \<^item> \<open>parseInt\<close> gives a double: for \<open>?page=9007199254740993&limit=10\<close> the answer
    reports \<open>current = 9007199254740992\<close>, not the requested page.
\<close>

theorem list_tasks_pagination_counterexample:
  "validatePagination bad_assignee_query = Some (Some 1, Some 10) \<and>
   list_tasks bob bad_assignee_query demo_db = Inl ServerError \<and>
   http_status ServerError = 500 \<and>
   validatePagination huge_page_query = Some (Some 9007199254740993, Some 10) \<and>
   list_tasks bob huge_page_query demo_db =
     Inr \<lparr>page_tasks = [],
          page_pagination =
            \<lparr>current = Num 9007199254740992, pages = 1, pagination_total = 3,
             limit = Num 10\<rparr>\<rparr>"
proof -
  have v1: "validatePagination bad_assignee_query = Some (Some 1, Some 10)"
    by (simp add: validatePagination_def bad_assignee_query_def no_query_def)
  have l1: "list_tasks bob bad_assignee_query demo_db = Inl ServerError"
    unfolding list_tasks_def v1 option.case prod.case
    by (simp add: list_handler_def Task_find_def Task_countDocuments_def castable_def
        build_filter_def bad_assignee_query_def no_query_def Let_def to_double_exact)
  have v2: "validatePagination huge_page_query = Some (Some 9007199254740993, Some 10)"
    by (simp add: validatePagination_def huge_page_query_def no_query_def)
  have page: "parseInt_or (Some 9007199254740993) 1 = Num 9007199254740992"
    by (simp add: to_double_def round53_def Let_def)
  have skip: "to_double 90071992547409910 = Num 90071992547409904"
    by (simp add: to_double_def round53_def Let_def)
  have l2: "list_tasks bob huge_page_query demo_db =
     Inr \<lparr>page_tasks = [],
          page_pagination =
            \<lparr>current = Num 9007199254740992, pages = 1, pagination_total = 3,
             limit = Num 10\<rparr>\<rparr>"
    unfolding list_tasks_def v2 option.case prod.case list_handler_def page Let_def
    by (simp add: skip to_double_exact Task_find_def Task_countDocuments_def castable_def
        build_filter_def huge_page_query_def matches_def own_tasks_def sort_createdAt_desc_def
        ceiling_eq_iff demo_defs)
  from v1 l1 v2 l2 show ?thesis by simp
qed

text \<open>
  C7, amended. A list request with page \<open>p \<ge> 1\<close> and limit \<open>1 \<le> l \<le> 100\<close> such that
  \<open>p * l \<le> 2^53\<close>, and whose \<open>assignedTo\<close>, if it has one, can be cast to an id,
  succeeds. With the matching tasks ordered by creation time, latest first, the answer
  reports \<open>current = p\<close>, \<open>limit = l\<close>, the number of matching tasks as \<open>total\<close> and the
  ceiling of \<open>total / l\<close> as \<open>pages\<close>; its page holds the tasks at positions
  \<open>(p - 1) * l\<close> up to, but not including, \<open>min (p * l) total\<close> of that order. With 25
  matching tasks and limit 10 there are 3 pages and page 3 holds 5 tasks.
\<close>

theorem list_tasks_pagination:
  assumes "1 \<le> p" and "1 \<le> l" and "l \<le> 100" and "p * l \<le> 2 ^ 53"
    and "q_page q = Some (IntStr (int p))" and "q_limit q = Some (IntStr (int l))"
    and "\<forall>a. q_assignedTo q = Some a \<longrightarrow> castObjectId a \<noteq> None"
  shows "\<exists>pg matching ordered.
           list_tasks caller q d = Inr pg \<and>
           matching = filter (matches (build_filter caller q)) (tasks d) \<and>
           ordered = sort_createdAt_desc matching \<and>
           mset ordered = mset matching \<and>
           sorted_wrt (\<lambda>a b. createdAt b \<le> createdAt a) ordered \<and>
           current (page_pagination pg) = Num p \<and>
           limit (page_pagination pg) = Num l \<and>
           pagination_total (page_pagination pg) = length matching \<and>
           pages (page_pagination pg) = \<lceil>real (length matching) / real l\<rceil> \<and>
           length (page_tasks pg) = min (p * l) (length matching) - (p - 1) * l \<and>
           (\<forall>k < length (page_tasks pg).
              page_tasks pg ! k = populate (users d) (ordered ! ((p - 1) * l + k))) \<and>
           (length matching = 25 \<and> l = 10 \<longrightarrow>
              pages (page_pagination pg) = 3 \<and> (p = 3 \<longrightarrow> length (page_tasks pg) = 5))"
proof -
  define matching where "matching = filter (matches (build_filter caller q)) (tasks d)"
  define ordered where "ordered = sort_createdAt_desc matching"
  define items where "items = take l (drop ((p - 1) * l) ordered)"
  define pg where "pg = \<lparr>page_tasks = map (populate (users d)) items,
     page_pagination = \<lparr>current = Num p, pages = \<lceil>real (length matching) / real l\<rceil>,
       pagination_total = length matching, limit = Num l\<rparr>\<rparr>"
  have valid: "validatePagination q = Some (Some p, Some l)"
    using assms(1,2,3,5,6) by (simp add: validatePagination_def)
  have page: "parseInt_or (Some p) 1 = Num p"
    and skip: "js_times (js_pred (Num p)) (Num l) = Num ((p - 1) * l)"
    using skip_exact [OF assms(1,2,4)] by simp_all
  have lmt: "parseInt_or (Some l) 10 = Num l"
    using assms(2,3) by (simp add: to_double_exact)
  have cast: "castable (build_filter caller q)"
    using assms(7) by (auto simp: castable_def build_filter_def split: option.splits)
  have "(p - 1) * l \<le> p * l" by simp
  then have "(p - 1) * l \<le> 2 ^ 53" using assms(4) by (rule le_trans)
  also have "(2::nat) ^ 53 < 2 ^ 63" by simp
  finally have small: "(p - 1) * l < 2 ^ 63" .
  have lsmall: "l < 2 ^ 63" using assms(3) by simp
  have find: "Task_find (build_filter caller q) (Num ((p - 1) * l)) (Num l) (tasks d) =
              Some items"
    using cast small lsmall assms(2)
    by (simp add: Task_find_def items_def ordered_def matching_def)
  have count: "Task_countDocuments (build_filter caller q) (tasks d) = Some (length matching)"
    using cast by (simp add: Task_countDocuments_def matching_def)
  have res: "list_tasks caller q d = Inr pg"
    unfolding list_tasks_def valid option.case prod.case list_handler_def Let_def page lmt skip
      find count pg_def
    by simp
  have len_ord: "length ordered = length matching"
    by (simp add: ordered_def length_sort_createdAt_desc)
  have len: "length (page_tasks pg) = min (p * l) (length matching) - (p - 1) * l"
    using page_length [OF assms(2) assms(1), of ordered] by (simp add: pg_def items_def len_ord)
  have nth: "\<forall>k < length (page_tasks pg).
              page_tasks pg ! k = populate (users d) (ordered ! ((p - 1) * l + k))"
    using page_nth [of _ l "(p - 1) * l" ordered]
    by (simp add: pg_def items_def del: length_take length_drop nth_take)
  have inst: "length matching = 25 \<and> l = 10 \<longrightarrow>
              pages (page_pagination pg) = 3 \<and> (p = 3 \<longrightarrow> length (page_tasks pg) = 5)"
  proof (intro impI conjI)
    assume a: "length matching = 25 \<and> l = 10"
    then show "pages (page_pagination pg) = 3"
      using pages_25_10 by (simp add: pg_def)
    assume "p = 3"
    with a len show "length (page_tasks pg) = 5" by simp
  qed
  show ?thesis
    apply (rule exI [of _ pg], rule exI [of _ matching], rule exI [of _ ordered])
    using res len nth inst
    by (simp add: matching_def [symmetric] ordered_def mset_sort_createdAt_desc
        sorted_createdAt_desc pg_def)
qed

text \<open>bob has 25 tasks, created at times 0 to 24; page 3 of 10 holds the five oldest.\<close>

lemma many_matching:
  "length (filter (matches (build_filter bob page3_query)) (tasks many_db)) = 25"
  by (simp add: many_db_def upt_25 matches_def build_filter_def own_tasks_def page3_query_def
      no_query_def mk_task_def bob_def)

lemma page3_valid: "validatePagination page3_query = Some (Some 3, Some 10)"
  by (simp add: validatePagination_def page3_query_def no_query_def)

lemma page3_filter: "build_filter bob page3_query = 
   \<lparr>f_or = Some 2, f_status = None, f_priority = None, f_assignedTo = None\<rparr>"
  by (simp add: build_filter_def own_tasks_def page3_query_def no_query_def bob_def)

lemma page3_sorted:
  "sort_createdAt_desc (filter (matches (build_filter bob page3_query)) (tasks many_db)) =
   map (\<lambda>k. mk_task k ''pending'' ''low'' 2 2 (int k)) (rev [0..<25])"
  unfolding page3_filter
  by (simp add: many_db_def upt_25 matches_def own_tasks_def mk_task_def sort_createdAt_desc_def)

lemma page3_castable: "castable (build_filter bob page3_query)"
  unfolding page3_filter by (simp add: castable_def)

lemma page3_find:
  "Task_find (build_filter bob page3_query) (Num 20) (Num 10) (tasks many_db) =
   Some (map (\<lambda>k. mk_task k ''pending'' ''low'' 2 2 (int k)) [4, 3, 2, 1, 0])"
  unfolding Task_find_def page3_sorted
  using page3_castable by (simp add: upt_25)

lemma page3_count:
  "Task_countDocuments (build_filter bob page3_query) (tasks many_db) = Some 25"
  unfolding Task_countDocuments_def many_matching
  using page3_castable by simp

lemma page3_numbers:
  "parseInt_or (Some 3) 1 = Num 3" "parseInt_or (Some 10) 10 = Num 10"
  "js_times (js_pred (Num 3)) (Num 10) = Num 20"
  by (simp_all add: to_double_exact)

lemma page3_result:
  "\<exists>pgn. list_tasks bob page3_query many_db =
     Inr \<lparr>page_tasks = map (populate (users many_db))
             (map (\<lambda>k. mk_task k ''pending'' ''low'' 2 2 (int k)) [4, 3, 2, 1, 0]),
          page_pagination = pgn\<rparr>"
  unfolding list_tasks_def page3_valid option.case prod.case list_handler_def Let_def
    page3_numbers page3_find page3_count
  by (rule exI, rule refl)

theorem list_tasks_pagination_witness:
  "(1::nat) \<le> 3 \<and> (1::nat) \<le> 10 \<and> (10::nat) \<le> 100 \<and> (3::nat) * 10 \<le> 2 ^ 53 \<and>
   q_page page3_query = Some (IntStr (int 3)) \<and>
   q_limit page3_query = Some (IntStr (int 10)) \<and>
   q_assignedTo page3_query = None \<and>
   (\<exists>pg. list_tasks bob page3_query many_db = Inr pg \<and>
      current (page_pagination pg) = Num 3 \<and>
      pages (page_pagination pg) = 3 \<and>
      pagination_total (page_pagination pg) = 25 \<and>
      length (page_tasks pg) = 5 \<and>
      map (\<lambda>p. task_id (doc p)) (page_tasks pg) = [4, 3, 2, 1, 0])"
proof -
  have h: "q_page page3_query = Some (IntStr (int 3))"
    "q_limit page3_query = Some (IntStr (int 10))"
    by (simp_all add: page3_query_def no_query_def)
  have na: "q_assignedTo page3_query = None"
    by (simp add: page3_query_def no_query_def)
  then have c: "\<forall>a. q_assignedTo page3_query = Some a \<longrightarrow> castObjectId a \<noteq> None"
    by simp
  have b: "(3::nat) * 10 \<le> 2 ^ 53" by simp
  from list_tasks_pagination [OF _ _ _ b h c, of bob many_db]
  obtain pg where pg: "list_tasks bob page3_query many_db = Inr pg"
    "current (page_pagination pg) = Num 3"
    "pagination_total (page_pagination pg) = 25"
    "pages (page_pagination pg) = 3"
    "length (page_tasks pg) = 5"
    using many_matching by auto
  from page3_result obtain pgn where
    "list_tasks bob page3_query many_db =
       Inr \<lparr>page_tasks = map (populate (users many_db))
               (map (\<lambda>k. mk_task k ''pending'' ''low'' 2 2 (int k)) [4, 3, 2, 1, 0]),
            page_pagination = pgn\<rparr>" ..
  then have "map (\<lambda>p. task_id (doc p))
          (page_tasks (projr (list_tasks bob page3_query many_db))) = [4, 3, 2, 1, 0]"
    by (simp add: populate_def mk_task_def)
  then have ids: "map (\<lambda>p. task_id (doc p)) (page_tasks pg) = [4, 3, 2, 1, 0]"
    by (simp add: pg(1))
  show ?thesis using h na pg ids by auto
qed

section \<open>Repeating an update\<close>

lemma set_string_idem: "set_string v (set_string v old) = set_string v old"
  by (cases v) simp_all

lemma set_id_idem: "set_id v (set_id v old) = set_id v old"
  by (cases v) (simp_all split: option.splits)

lemma set_date_idem: "set_date v (set_date v old) = set_date v old"
  by (cases "(v, old)" rule: set_date.cases) simp_all

lemma apply_update_twice:
  "apply_update now2 b (apply_update now1 b t) = (apply_update now1 b t)\<lparr>updatedAt := now2\<rparr>"
  by (simp add: apply_update_def set_string_idem set_id_idem set_date_idem)

lemma findTask_updateTask_const:
  "findTask ts i = Some t \<Longrightarrow> task_id t' = i \<Longrightarrow>
   findTask (updateTask i (\<lambda>old. t') ts) i = Some t'"
  by (induction ts) (auto split: if_splits)

text \<open>Only the due date's validator reads the clock.\<close>

lemma update_validate_later:
  assumes "update_validate now1 b"
  shows "update_validate now2 b \<longleftrightarrow> \<not> (\<exists>due. b_dueDate b = Some (Date due) \<and> due \<le> now2)"
proof (cases "b_dueDate b")
  case None
  with assms show ?thesis by (simp add: update_validate_def)
next
  case (Some dp)
  with assms show ?thesis by (cases dp) (auto simp: update_validate_def)
qed

text \<open>The update handler on a payload of task fields only, once the task is found.\<close>

lemma update_handler_plain:
  assumes "findTask (tasks d) i = Some t" and "b_operators b = None"
  shows "update_handler engine now caller i b d =
     (if role caller \<noteq> ''admin'' \<and> createdBy t \<noteq> user_id caller \<and>
         assignedTo t \<noteq> user_id caller
      then (Inl AccessDenied, d)
      else case assignee_change b t d of
             Some e \<Rightarrow> (Inl e, d)
           | None \<Rightarrow>
              if update_validate now b
              then (Inr (populate (users d) (apply_update now b t)),
                    d\<lparr>tasks := updateTask i (\<lambda>old. apply_update now b t) (tasks d)\<rparr>)
              else (Inl ServerError, d))"
  using assms
  by (simp add: update_handler_def findByIdAndUpdate_def split: option.splits)

lemma update_handler_success:
  assumes "update_handler engine now caller i b d = (Inr r, d')" and "b_operators b = None"
  obtains t where "findTask (tasks d) i = Some t"
    and "assignee_change b t d = None" and "update_validate now b"
    and "r = populate (users d) (apply_update now b t)"
    and "d' = d\<lparr>tasks := updateTask i (\<lambda>old. apply_update now b t) (tasks d)\<rparr>"
proof (cases "findTask (tasks d) i")
  case None
  with assms(1) show ?thesis by (simp add: update_handler_def)
next
  case (Some t)
  from assms(1) show ?thesis
    unfolding update_handler_plain [OF Some assms(2)]
    using that [of t] Some
    by (auto split: if_splits option.splits)
qed

text \<open>After a successful update the assignee named by the payload is the stored one, or
  a user that was found a moment ago: the check passes again.\<close>

lemma assignee_change_again:
  assumes "assignee_change b t d = None" and "update_validate now b"
    and "users d' = users d"
  shows "assignee_change b (apply_update now b t) d' = None"
proof (cases "b_assignedTo b")
  case None
  then show ?thesis by (simp add: assignee_change_def)
next
  case (Some a)
  with assms(2) obtain j where j: "castObjectId a = Some j"
    by (auto simp: update_validate_def)
  have new: "assignedTo (apply_update now b t) = j"
    by (simp add: apply_update_def Some j)
  show ?thesis
  proof (cases "is_toString a j")
    case True
    then show ?thesis by (simp add: assignee_change_def Some new)
  next
    case False
    have "\<not> is_toString a (assignedTo t)"
    proof
      assume s: "is_toString a (assignedTo t)"
      then have "castObjectId a = Some (assignedTo t)" by (rule is_toString_castable)
      with j s False show False by simp
    qed
    with assms(1) have "findUser (users d) j \<noteq> None"
      by (auto simp: assignee_change_def Some j split: option.splits)
    then show ?thesis
      by (auto simp: assignee_change_def Some j new assms(3))
  qed
qed

text \<open>
  C9, as stated, fails: the schema has \<open>timestamps: true\<close>, so every successful update
  sets \<open>updatedAt\<close> to the time of the call. bob completes task 10 at time 100 and sends
  the same payload again at time 200: the stored task has \<open>updatedAt = 100\<close> after the
  first call and \<open>updatedAt = 200\<close> after the second.
\<close>

theorem update_task_twice_counterexample:
  "map_option updatedAt
     (findTask (tasks (snd (update_task no_engine 100 bob (Id 10 True) done_body demo_db))) 10) =
     Some 100 \<and>
   map_option updatedAt
     (findTask (tasks (snd (update_task no_engine 200 bob (Id 10 True) done_body
        (snd (update_task no_engine 100 bob (Id 10 True) done_body demo_db))))) 10) = Some 200 \<and>
   snd (update_task no_engine 200 bob (Id 10 True) done_body
        (snd (update_task no_engine 100 bob (Id 10 True) done_body demo_db))) \<noteq>
   snd (update_task no_engine 100 bob (Id 10 True) done_body demo_db)"
proof -
  have v: "validateTaskUpdate done_body"
    by (simp add: validateTaskUpdate_def body_defs  isIn_def status_values_def)
  have uv: "update_validate n (trimmed done_body)" for n
    by (simp add: update_validate_def trimmed_def body_defs  isIn_def
        status_values_def)
  have ops: "b_operators (trimmed done_body) = None"
    by (simp add: trimmed_def body_defs)
  let ?rest = "[mk_task 11 ''in-progress'' ''high'' 2 2 6,
                mk_task 12 ''completed'' ''medium'' 1 1 7,
                mk_task 13 ''completed'' ''low'' 1 2 8]"
  let ?d1 = "demo_db\<lparr>tasks := (mk_task 10 ''completed'' ''low'' 2 1 5)\<lparr>updatedAt := 100\<rparr> # ?rest\<rparr>"
  let ?d2 = "demo_db\<lparr>tasks := (mk_task 10 ''completed'' ''low'' 2 1 5)\<lparr>updatedAt := 200\<rparr> # ?rest\<rparr>"
  have first: "snd (update_task no_engine 100 bob (Id 10 True) done_body demo_db) = ?d1"
    using v uv ops
    by (simp add: update_task_def validateObjectId_def update_handler_def findByIdAndUpdate_def
        assignee_change_def apply_update_def trimmed_def body_defs demo_defs)
  have second: "snd (update_task no_engine 200 bob (Id 10 True) done_body ?d1) = ?d2"
    using v uv ops
    by (simp add: update_task_def validateObjectId_def update_handler_def findByIdAndUpdate_def
        assignee_change_def apply_update_def trimmed_def body_defs demo_defs)
  show ?thesis unfolding first second by (simp add: demo_defs)
qed

text \<open>
  C9, amended. Take a payload of task fields only (no update operator, no path that the
  store keeps by itself) and a first update with it that succeeded at time \<open>now1\<close>,
  leaving the task as \<open>t1\<close>. The same request at time \<open>now2\<close> is then decided as
  follows.
  \<^item> It is refused with a 403, the database as it was, when the first update took from the
    caller the role of creator or assignee.
  \<^item> Otherwise it ends in the 500 branch, the database as it was, when the payload's due
    date is no longer in the future at \<open>now2\<close>.
  \<^item> Otherwise it succeeds and the one change to the database is that the \<open>updatedAt\<close>
    of the task is \<open>now2\<close>.

  So a second call that succeeds writes \<open>updatedAt\<close> and nothing else, a second call that
  fails writes nothing, every field other than \<open>updatedAt\<close> of every stored task is as it
  was after the first call, and when the clock has not moved the database is identical.
\<close>

theorem update_task_twice_up_to_updatedAt:
  assumes "update_task engine now1 caller ip b d = (Inr r1, d1)" and "b_operators b = None"
  shows "\<exists>i t1.
     castObjectId ip = Some i \<and> findTask (tasks d1) i = Some t1 \<and>
     r1 = populate (users d) t1 \<and> updatedAt t1 = now1 \<and>
     update_task engine now2 caller ip b d1 =
       (if role caller \<noteq> ''admin'' \<and> createdBy t1 \<noteq> user_id caller \<and>
           assignedTo t1 \<noteq> user_id caller
        then (Inl AccessDenied, d1)
        else if \<exists>due. b_dueDate b = Some (Date due) \<and> due \<le> now2
        then (Inl ServerError, d1)
        else (Inr (populate (users d1) (t1\<lparr>updatedAt := now2\<rparr>)),
              d1\<lparr>tasks := updateTask i (\<lambda>t. t\<lparr>updatedAt := now2\<rparr>) (tasks d1)\<rparr>)) \<and>
     (\<forall>r2 d2. update_task engine now2 caller ip b d1 = (Inr r2, d2) \<longrightarrow>
        d2 = d1\<lparr>tasks := updateTask i (\<lambda>t. t\<lparr>updatedAt := now2\<rparr>) (tasks d1)\<rparr>) \<and>
     (\<forall>e d2. update_task engine now2 caller ip b d1 = (Inl e, d2) \<longrightarrow> d2 = d1) \<and>
     map (\<lambda>t. t\<lparr>updatedAt := 0\<rparr>) (tasks (snd (update_task engine now2 caller ip b d1))) =
       map (\<lambda>t. t\<lparr>updatedAt := 0\<rparr>) (tasks d1) \<and>
     users (snd (update_task engine now2 caller ip b d1)) = users d1 \<and>
     (now2 = now1 \<longrightarrow> snd (update_task engine now2 caller ip b d1) = d1)"
proof -
  let ?b = "trimmed b"
  from assms(1) obtain i where vi: "validateObjectId ip" and v: "validateTaskUpdate b"
    and ip: "castObjectId ip = Some i"
    and h1: "update_handler engine now1 caller i ?b d = (Inr r1, d1)"
    by (auto simp: update_task_def split: if_splits option.splits)
  have ops: "b_operators ?b = None"
    using assms(2) by (simp add: trimmed_operators)
  from update_handler_success [OF h1 ops] obtain t where
    t: "findTask (tasks d) i = Some t" and
    ac: "assignee_change ?b t d = None" and
    uv: "update_validate now1 ?b" and
    r1: "r1 = populate (users d) (apply_update now1 ?b t)" and
    d1: "d1 = d\<lparr>tasks := updateTask i (\<lambda>old. apply_update now1 ?b t) (tasks d)\<rparr>"
    by blast
  define t1 where "t1 = apply_update now1 ?b t"
  have id1: "task_id t1 = i"
    using findTask_id [OF t] by (simp add: t1_def task_id_apply_update)
  have found1: "findTask (tasks d1) i = Some t1"
    using findTask_updateTask_const [OF t id1] by (simp add: d1 t1_def)
  have users1: "users d1 = users d" by (simp add: d1)
  have at1: "updatedAt t1 = now1" by (simp add: t1_def apply_update_def)
  have ac1: "assignee_change ?b t1 d1 = None"
    unfolding t1_def by (rule assignee_change_again [OF ac uv users1])
  have twice: "apply_update now2 ?b t1 = t1\<lparr>updatedAt := now2\<rparr>"
    unfolding t1_def by (rule apply_update_twice)
  have again: "updateTask i (\<lambda>old. t1\<lparr>updatedAt := now2\<rparr>) (tasks d1) =
               updateTask i (\<lambda>t. t\<lparr>updatedAt := now2\<rparr>) (tasks d1)"
    by (rule updateTask_cong) (simp add: found1)
  have later: "update_validate now2 ?b \<longleftrightarrow>
               \<not> (\<exists>due. b_dueDate b = Some (Date due) \<and> due \<le> now2)"
    using update_validate_later [OF uv, of now2] by (simp add: trimmed_fields)
  let ?second = "update_task engine now2 caller ip b d1"
  let ?d2 = "d1\<lparr>tasks := updateTask i (\<lambda>t. t\<lparr>updatedAt := now2\<rparr>) (tasks d1)\<rparr>"
  have route: "?second = update_handler engine now2 caller i ?b d1"
    using vi v ip by (simp add: update_task_def)
  have second: "?second =
       (if role caller \<noteq> ''admin'' \<and> createdBy t1 \<noteq> user_id caller \<and>
           assignedTo t1 \<noteq> user_id caller
        then (Inl AccessDenied, d1)
        else if \<exists>due. b_dueDate b = Some (Date due) \<and> due \<le> now2
        then (Inl ServerError, d1)
        else (Inr (populate (users d1) (t1\<lparr>updatedAt := now2\<rparr>)), ?d2))"
  proof (cases "\<exists>due. b_dueDate b = Some (Date due) \<and> due \<le> now2")
    case True
    with later have "\<not> update_validate now2 ?b" by simp
    with True show ?thesis
      unfolding route update_handler_plain [OF found1 ops] ac1 option.case by simp
  next
    case False
    with later have "update_validate now2 ?b" by simp
    with False show ?thesis
      unfolding route update_handler_plain [OF found1 ops] ac1 option.case twice again
      by auto
  qed
  have same: "updateTask i (\<lambda>t. t\<lparr>updatedAt := now1\<rparr>) (tasks d1) = tasks d1"
    by (rule updateTask_id) (simp add: found1 at1 [symmetric])
  have alt: "snd ?second = d1 \<or> snd ?second = ?d2"
    unfolding second by simp
  have p1: "\<forall>r2 d2. ?second = (Inr r2, d2) \<longrightarrow> d2 = ?d2"
    unfolding second by (simp split: if_splits)
  have p2: "\<forall>e d2. ?second = (Inl e, d2) \<longrightarrow> d2 = d1"
    unfolding second by (simp split: if_splits)
  have p3: "map (\<lambda>t. t\<lparr>updatedAt := 0\<rparr>) (tasks (snd ?second)) =
            map (\<lambda>t. t\<lparr>updatedAt := 0\<rparr>) (tasks d1)"
    using alt by (auto simp: updateTask_updatedAt_erased)
  have p4: "users (snd ?second) = users d1"
    using alt by auto
  have p5: "now2 = now1 \<longrightarrow> snd ?second = d1"
    using alt same by auto
  have r1': "r1 = populate (users d) t1" by (simp add: r1 t1_def)
  from ip found1 r1' at1 second p1 p2 p3 p4 p5 show ?thesis by blast
qed

text \<open>bob completes task 10 at time 100 and repeats the request at time 200, and at time
  100.\<close>

theorem update_task_twice_up_to_updatedAt_witness:
  "update_task no_engine 100 bob (Id 10 True) done_body demo_db =
     (Inr (populate (users demo_db)
            ((mk_task 10 ''completed'' ''low'' 2 1 5)\<lparr>updatedAt := 100\<rparr>)),
      demo_db\<lparr>tasks := (mk_task 10 ''completed'' ''low'' 2 1 5)\<lparr>updatedAt := 100\<rparr> #
                          tl (tasks demo_db)\<rparr>) \<and>
   b_operators done_body = None \<and>
   update_task no_engine 200 bob (Id 10 True) done_body
     (demo_db\<lparr>tasks := (mk_task 10 ''completed'' ''low'' 2 1 5)\<lparr>updatedAt := 100\<rparr> #
                         tl (tasks demo_db)\<rparr>) =
     (Inr (populate (users demo_db)
            ((mk_task 10 ''completed'' ''low'' 2 1 5)\<lparr>updatedAt := 200\<rparr>)),
      demo_db\<lparr>tasks := (mk_task 10 ''completed'' ''low'' 2 1 5)\<lparr>updatedAt := 200\<rparr> #
                          tl (tasks demo_db)\<rparr>) \<and>
   snd (update_task no_engine 100 bob (Id 10 True) done_body
     (demo_db\<lparr>tasks := (mk_task 10 ''completed'' ''low'' 2 1 5)\<lparr>updatedAt := 100\<rparr> #
                         tl (tasks demo_db)\<rparr>)) =
     demo_db\<lparr>tasks := (mk_task 10 ''completed'' ''low'' 2 1 5)\<lparr>updatedAt := 100\<rparr> #
                         tl (tasks demo_db)\<rparr>"
proof -
  let ?t = "mk_task 10 ''pending'' ''low'' 2 1 5"
  let ?t1 = "(mk_task 10 ''completed'' ''low'' 2 1 5)\<lparr>updatedAt := 100\<rparr>"
  let ?d1 = "demo_db\<lparr>tasks := ?t1 # tl (tasks demo_db)\<rparr>"
  have v: "validateTaskUpdate done_body"
    by (simp add: validateTaskUpdate_def body_defs isIn_def status_values_def)
  have uv: "update_validate 100 (trimmed done_body)"
    by (simp add: update_validate_def trimmed_def body_defs isIn_def status_values_def)
  have ops: "b_operators done_body = None"
    by (simp add: body_defs)
  then have opsT: "b_operators (trimmed done_body) = None"
    by (simp add: trimmed_operators)
  have f: "findTask (tasks demo_db) 10 = Some ?t"
    by (simp add: demo_defs)
  have perm: "\<not> (role bob \<noteq> ''admin'' \<and> createdBy ?t \<noteq> user_id bob \<and>
                 assignedTo ?t \<noteq> user_id bob)"
    by (simp add: demo_defs)
  have ac: "assignee_change (trimmed done_body) ?t demo_db = None"
    by (simp add: assignee_change_def trimmed_def body_defs)
  have upd: "apply_update 100 (trimmed done_body) ?t = ?t1"
    by (simp add: apply_update_def trimmed_def body_defs mk_task_def)
  have store: "updateTask 10 (\<lambda>old. ?t1) (tasks demo_db) = ?t1 # tl (tasks demo_db)"
    by (simp add: demo_defs)
  have route: "update_task no_engine 100 bob (Id 10 True) done_body demo_db =
               update_handler no_engine 100 bob 10 (trimmed done_body) demo_db"
    using v by (simp add: update_task_def validateObjectId_def)
  have first: "update_task no_engine 100 bob (Id 10 True) done_body demo_db =
               (Inr (populate (users demo_db) ?t1), ?d1)"
    unfolding route update_handler_plain [OF f opsT] ac option.case upd store
    using perm uv by (simp only: if_False if_True)
  have found: "findTask (tasks ?d1) 10 = Some ?t1"
    by (simp add: mk_task_def)
  have perm1: "\<not> (role bob \<noteq> ''admin'' \<and> createdBy ?t1 \<noteq> user_id bob \<and>
                 assignedTo ?t1 \<noteq> user_id bob)"
    by (simp add: demo_defs)
  have due: "\<not> (\<exists>due. b_dueDate done_body = Some (Date due) \<and> due \<le> n)" for n
    by (simp add: body_defs)
  have users1: "users ?d1 = users demo_db" by simp
  have store2: "?d1\<lparr>tasks := updateTask 10 (\<lambda>t. t\<lparr>updatedAt := 200\<rparr>) (tasks ?d1)\<rparr> =
             demo_db\<lparr>tasks := ?t1\<lparr>updatedAt := 200\<rparr> # tl (tasks demo_db)\<rparr>"
    by (simp add: mk_task_def)
  from update_task_twice_up_to_updatedAt [OF first ops, of 200]
  obtain i t1 where i: "castObjectId (Id 10 True) = Some i"
    and t1: "findTask (tasks ?d1) i = Some t1"
    and s: "update_task no_engine 200 bob (Id 10 True) done_body ?d1 =
       (if role bob \<noteq> ''admin'' \<and> createdBy t1 \<noteq> user_id bob \<and>
           assignedTo t1 \<noteq> user_id bob
        then (Inl AccessDenied, ?d1)
        else if \<exists>due. b_dueDate done_body = Some (Date due) \<and> due \<le> 200
        then (Inl ServerError, ?d1)
        else (Inr (populate (users ?d1) (t1\<lparr>updatedAt := 200\<rparr>)),
              ?d1\<lparr>tasks := updateTask i (\<lambda>t. t\<lparr>updatedAt := 200\<rparr>) (tasks ?d1)\<rparr>))"
    by blast
  from i have i10: "i = 10" by simp
  from t1 found have t1': "t1 = ?t1" by (simp only: i10 option.inject)
  have second: "update_task no_engine 200 bob (Id 10 True) done_body ?d1 =
     (Inr (populate (users demo_db) (?t1\<lparr>updatedAt := 200\<rparr>)),
      demo_db\<lparr>tasks := ?t1\<lparr>updatedAt := 200\<rparr> # tl (tasks demo_db)\<rparr>)"
    using s [unfolded i10 t1' store2 users1] perm1 due [of 200] by (simp only: if_False)
  from update_task_twice_up_to_updatedAt [OF first ops, of 100]
  have same: "snd (update_task no_engine 100 bob (Id 10 True) done_body ?d1) = ?d1"
    by blast
  have collapse: "?t1\<lparr>updatedAt := 200\<rparr> =
                  (mk_task 10 ''completed'' ''low'' 2 1 5)\<lparr>updatedAt := 200\<rparr>"
    by simp
  from first ops second [unfolded collapse] same show ?thesis by (intro conjI)
qed

end
